theory Spec2Isabelle
  imports Complex_Main "HOL-Library.AList"
begin

section \<open>Python values, dictionaries, exceptions and log records\<close>

text \<open>
  Messages and parameter mappings are \<^verbatim>\<open>Dict[str, Any]\<close>. The values are modelled by the
  fragment of Python values that the simulator's own messages are built from: \<^verbatim>\<open>None\<close>,
  integers, strings, lists and string-keyed dictionaries. A dictionary is an association
  list in insertion order.
\<close>

datatype pyval =
    PyNone
  | PyInt int
  | PyStr string
  | PyList "pyval list"
  | PyDict "(string \<times> pyval) list"

type_synonym message = "(string \<times> pyval) list"

text \<open>\<^verbatim>\<open>d.get(k)\<close>: the value stored under the key, \<^verbatim>\<open>None\<close> when the key is missing.\<close>

definition dict_get :: "message \<Rightarrow> string \<Rightarrow> pyval" where
  "dict_get m k = (case map_of m k of None \<Rightarrow> PyNone | Some v \<Rightarrow> v)"

text \<open>\<^verbatim>\<open>d.get(k, default)\<close>.\<close>

definition dict_get_default :: "message \<Rightarrow> string \<Rightarrow> pyval \<Rightarrow> pyval" where
  "dict_get_default m k dflt = (case map_of m k of None \<Rightarrow> dflt | Some v \<Rightarrow> v)"

text \<open>Python's truth value of an object, as \<^verbatim>\<open>if x:\<close> tests it.\<close>

fun truthy :: "pyval \<Rightarrow> bool" where
  "truthy PyNone = False"
| "truthy (PyInt n) = (n \<noteq> 0)"
| "truthy (PyStr s) = (s \<noteq> [])"
| "truthy (PyList xs) = (xs \<noteq> [])"
| "truthy (PyDict kvs) = (kvs \<noteq> [])"

datatype py_exception = KeyError | TypeError | ValueError | RuntimeError

fun exception_class :: "py_exception \<Rightarrow> string" where
  "exception_class KeyError = ''KeyError''"
| "exception_class TypeError = ''TypeError''"
| "exception_class ValueError = ''ValueError''"
| "exception_class RuntimeError = ''RuntimeError''"

text \<open>
  \<^verbatim>\<open>obj[key]\<close> with a string key: a dictionary is looked up (\<^verbatim>\<open>KeyError\<close> on a missing
  key); a string or a list wants an integer index and an integer or \<^verbatim>\<open>None\<close> has no
  subscript at all (\<^verbatim>\<open>TypeError\<close>).
\<close>

fun subscript :: "pyval \<Rightarrow> string \<Rightarrow> py_exception + pyval" where
  "subscript (PyDict kvs) k = (case map_of kvs k of None \<Rightarrow> Inl KeyError | Some v \<Rightarrow> Inr v)"
| "subscript _ k = Inl TypeError"

text \<open>Lists and dictionaries are unhashable: they cannot be the key of a dictionary.\<close>

fun hashable :: "pyval \<Rightarrow> bool" where
  "hashable (PyList xs) = False"
| "hashable (PyDict kvs) = False"
| "hashable _ = True"

text \<open>
  Every object logs through its own \<^verbatim>\<open>logging.Logger\<close>, whose level is set to
  \<^verbatim>\<open>INFO\<close>: the model keeps the records it emits, each as the level, the f-string's
  text with \<^verbatim>\<open>{}\<close> for every interpolated expression, and the interpolated values.
  A \<^verbatim>\<open>debug\<close> call is below the level and emits nothing.
\<close>

datatype log_level = INFO | WARNING | ERROR

type_synonym log_record = "log_level \<times> string \<times> pyval list"

section \<open>The standard library's IPv4 networks\<close>

text \<open>
  Modelled from the spec: the device reads networks through Python's \<^verbatim>\<open>ipaddress\<close>
  module, which is no file of the repository. The spec names what it needs of it: the
  network of an address and a mask, the singleton network of an address, and the superset
  test. The model follows the module's documented parsing: an address is four decimal
  octets (ASCII digits, at most three, no leading zero, at most 255) separated by dots; a
  mask is a prefix length from 0 to 32, a dotted netmask or a dotted hostmask; without a
  mask the prefix length is 32; a network whose address has host bits set is refused when
  \<^verbatim>\<open>strict\<close> and masked otherwise. Every failure of the module is a \<^verbatim>\<open>ValueError\<close>,
  here \<open>None\<close>.
\<close>

record ipv4net =
  network_address :: int
  prefixlen :: nat

text \<open>\<^verbatim>\<open>str.split(sep)\<close> for a separator of one character.\<close>

fun split_on :: "char \<Rightarrow> string \<Rightarrow> string list" where
  "split_on c [] = [[]]"
| "split_on c (x # xs) =
     (if x = c then [] # split_on c xs
      else (case split_on c xs of [] \<Rightarrow> [[x]] | w # ws \<Rightarrow> (x # w) # ws))"

definition is_ascii_digit :: "char \<Rightarrow> bool" where
  "is_ascii_digit c = (48 \<le> (of_char c :: int) \<and> (of_char c :: int) \<le> 57)"

definition int_of_digits :: "string \<Rightarrow> int" where
  "int_of_digits s = foldl (\<lambda>n c. 10 * n + (of_char c - 48)) 0 s"

definition parse_octet :: "string \<Rightarrow> int option" where
  "parse_octet s =
     (if s = [] then None
      else if \<not> list_all is_ascii_digit s then None
      else if length s > 3 then None
      else if s \<noteq> ''0'' \<and> hd s = CHR ''0'' then None
      else if int_of_digits s > 255 then None
      else Some (int_of_digits s))"

definition ip_int_from_string :: "string \<Rightarrow> int option" where
  "ip_int_from_string s =
     (if s = [] then None
      else (case map parse_octet (split_on CHR ''.'' s) of
              [Some a, Some b, Some c, Some d] \<Rightarrow> Some (((a * 256 + b) * 256 + c) * 256 + d)
            | _ \<Rightarrow> None))"

definition prefix_from_prefix_string :: "string \<Rightarrow> nat option" where
  "prefix_from_prefix_string s =
     (if s = [] \<or> \<not> list_all is_ascii_digit s then None
      else if int_of_digits s > 32 then None
      else Some (nat (int_of_digits s)))"

text \<open>The netmask of a prefix length, as an integer: \<open>p\<close> ones, then zeroes.\<close>

definition ip_int_from_prefix :: "nat \<Rightarrow> int" where
  "ip_int_from_prefix p = 2 ^ 32 - 2 ^ (32 - p)"

definition prefix_from_ip_int :: "int \<Rightarrow> nat option" where
  "prefix_from_ip_int m = find (\<lambda>p. ip_int_from_prefix p = m) [0 ..< 33]"

definition prefix_from_ip_string :: "string \<Rightarrow> nat option" where
  "prefix_from_ip_string s =
     (case ip_int_from_string s of
        None \<Rightarrow> None
      | Some m \<Rightarrow>
          (case prefix_from_ip_int m of
             Some p \<Rightarrow> Some p
           | None \<Rightarrow> prefix_from_ip_int (2 ^ 32 - 1 - m)))"

definition make_netmask :: "string \<Rightarrow> nat option" where
  "make_netmask s =
     (case prefix_from_prefix_string s of
        Some p \<Rightarrow> Some p
      | None \<Rightarrow> prefix_from_ip_string s)"

text \<open>\<^verbatim>\<open>ipaddress.IPv4Network(text, strict)\<close> for a string.\<close>

definition IPv4Network :: "string \<Rightarrow> bool \<Rightarrow> ipv4net option" where
  "IPv4Network s strict =
     (case split_on CHR ''/'' s of
        [a] \<Rightarrow>
          (case ip_int_from_string a of
             None \<Rightarrow> None
           | Some ip \<Rightarrow> Some \<lparr>network_address = ip, prefixlen = 32\<rparr>)
      | [a, m] \<Rightarrow>
          (case ip_int_from_string a of
             None \<Rightarrow> None
           | Some ip \<Rightarrow>
               (case make_netmask m of
                  None \<Rightarrow> None
                | Some p \<Rightarrow>
                    if ip mod 2 ^ (32 - p) \<noteq> 0 \<and> strict then None
                    else Some \<lparr>network_address = ip - ip mod 2 ^ (32 - p), prefixlen = p\<rparr>))
      | _ \<Rightarrow> None)"

text \<open>
  The constructor applied to any value of a message: a string is parsed, an integer in
  range is the address itself, and \<^verbatim>\<open>None\<close>, a list or a dictionary is parsed through
  its \<^verbatim>\<open>str()\<close>, which is no address.
\<close>

fun IPv4Network_of :: "pyval \<Rightarrow> bool \<Rightarrow> ipv4net option" where
  "IPv4Network_of (PyStr s) strict = IPv4Network s strict"
| "IPv4Network_of (PyInt n) strict =
     (if 0 \<le> n \<and> n < 2 ^ 32 then Some \<lparr>network_address = n, prefixlen = 32\<rparr> else None)"
| "IPv4Network_of _ strict = None"

definition broadcast_address :: "ipv4net \<Rightarrow> int" where
  "broadcast_address n = network_address n + (2 ^ (32 - prefixlen n) - 1)"

text \<open>\<^verbatim>\<open>a.subnet_of(b)\<close>: \<open>b\<close> starts no later and ends no earlier than \<open>a\<close>.\<close>

definition subnet_of :: "ipv4net \<Rightarrow> ipv4net \<Rightarrow> bool" where
  "subnet_of a b \<longleftrightarrow>
     network_address b \<le> network_address a \<and> broadcast_address b \<ge> broadcast_address a"

text \<open>The addresses of a network.\<close>

definition addresses :: "ipv4net \<Rightarrow> int set" where
  "addresses n = {network_address n .. broadcast_address n}"

section \<open>The device (\<^verbatim>\<open>core/device.py\<close>)\<close>

datatype DeviceType = ROUTER | SWITCH | ENDPOINT

datatype InterfaceState = UP | DOWN | ADMIN_DOWN

text \<open>\<^verbatim>\<open>InterfaceState.value\<close>.\<close>

fun state_value :: "InterfaceState \<Rightarrow> string" where
  "state_value UP = ''up''"
| "state_value DOWN = ''down''"
| "state_value ADMIN_DOWN = ''admin_down''"

record Interface =
  name :: string
  ip_address :: string
  subnet_mask :: string
  bandwidth :: int
  mtu :: int
  state :: InterfaceState
  vlan :: "int option"
  description :: string

text \<open>The \<^verbatim>\<open>statistics\<close> dictionary of a device: its four fixed keys.\<close>

record DeviceStatistics =
  packets_sent :: int
  packets_received :: int
  errors :: int
  uptime :: real

text \<open>
  A \<^verbatim>\<open>NetworkDevice\<close>. \<open>interfaces\<close> is the dictionary from interface name to interface,
  in insertion order; \<open>started\<close> tells whether the thread has been started and \<open>alive\<close>
  is \<^verbatim>\<open>Thread.is_alive()\<close>; \<open>logger\<close> holds the records the device's logger has emitted.
\<close>

record NetworkDevice =
  hostname :: string
  device_type :: DeviceType
  message_queue :: "message list"
  running :: bool
  started :: bool
  alive :: bool
  interfaces :: "(string \<times> Interface) list"
  neighbors :: "string list"
  routing_table :: "(pyval \<times> pyval) list"
  arp_table :: "(string \<times> string) list"
  statistics :: DeviceStatistics
  logger :: "log_record list"

text \<open>One entry of the \<^verbatim>\<open>'interfaces'\<close> list of a device's configuration dictionary.\<close>

record intf_config =
  cfg_name :: string
  cfg_ip_address :: string
  cfg_subnet_mask :: string
  cfg_bandwidth :: int
  cfg_mtu :: int
  cfg_vlan :: "int option"
  cfg_description :: string

definition emit :: "log_record \<Rightarrow> NetworkDevice \<Rightarrow> NetworkDevice" where
  "emit r d = d\<lparr>logger := logger d @ [r]\<rparr>"

text \<open>\<^verbatim>\<open>_initialize_interfaces\<close>: every configured interface starts \<^verbatim>\<open>UP\<close>.\<close>

definition interface_of_config :: "intf_config \<Rightarrow> Interface" where
  "interface_of_config c =
     \<lparr>name = cfg_name c, ip_address = cfg_ip_address c, subnet_mask = cfg_subnet_mask c,
      bandwidth = cfg_bandwidth c, mtu = cfg_mtu c, state = UP, vlan = cfg_vlan c,
      description = cfg_description c\<rparr>"

definition initialize_interfaces :: "intf_config list \<Rightarrow> (string \<times> Interface) list" where
  "initialize_interfaces cfg =
     foldl (\<lambda>d c. AList.update (cfg_name c) (interface_of_config c) d) [] cfg"

text \<open>\<^verbatim>\<open>NetworkDevice.__init__\<close>.\<close>

definition NetworkDevice_init :: "string \<Rightarrow> DeviceType \<Rightarrow> intf_config list \<Rightarrow> NetworkDevice" where
  "NetworkDevice_init h t cfg =
     \<lparr>hostname = h, device_type = t, message_queue = [], running = True, started = False,
      alive = False,
      interfaces = initialize_interfaces cfg, neighbors = [], routing_table = [],
      arp_table = [],
      statistics = \<lparr>packets_sent = 0, packets_received = 0, errors = 0, uptime = 0\<rparr>,
      logger = []\<rparr>"

definition add_neighbor :: "string \<Rightarrow> NetworkDevice \<Rightarrow> NetworkDevice" where
  "add_neighbor n d =
     (if n \<notin> set (neighbors d)
      then emit (INFO, ''Added neighbor: {}'', [PyStr n]) (d\<lparr>neighbors := neighbors d @ [n]\<rparr>)
      else d)"

definition remove_neighbor :: "string \<Rightarrow> NetworkDevice \<Rightarrow> NetworkDevice" where
  "remove_neighbor n d =
     (if n \<in> set (neighbors d)
      then emit (INFO, ''Removed neighbor: {}'', [PyStr n]) (d\<lparr>neighbors := remove1 n (neighbors d)\<rparr>)
      else d)"

definition send_message :: "message \<Rightarrow> NetworkDevice \<Rightarrow> NetworkDevice" where
  "send_message m d = d\<lparr>message_queue := message_queue d @ [m]\<rparr>"

text \<open>
  \<^verbatim>\<open>_forward_arp_request\<close> and \<^verbatim>\<open>_forward_ping\<close> only make \<^verbatim>\<open>debug\<close> calls, one for
  each \<^verbatim>\<open>UP\<close> interface: nothing of the device changes.
\<close>

definition forward_arp_request :: "message \<Rightarrow> NetworkDevice \<Rightarrow> NetworkDevice" where
  "forward_arp_request m d = d"

definition forward_ping :: "message \<Rightarrow> NetworkDevice \<Rightarrow> NetworkDevice" where
  "forward_ping m d = d"

text \<open>
  \<^verbatim>\<open>_handle_arp_request\<close>: the first interface, in dictionary order, whose address equals
  the target answers; the reply is the function's result. A string equals a message value
  only when the value is that string.
\<close>

definition handle_arp_request :: "message \<Rightarrow> NetworkDevice \<Rightarrow> message option \<times> NetworkDevice" where
  "handle_arp_request m d =
     (let target_ip = dict_get m ''target_ip'';
          source_mac = dict_get m ''source_mac''
      in case find (\<lambda>i. PyStr (ip_address i) = target_ip) (map snd (interfaces d)) of
           Some i \<Rightarrow>
             (Some [(''type'', PyStr ''arp_reply''),
                    (''target_mac'', source_mac),
                    (''source_ip'', target_ip),
                    (''source_mac'', PyStr (''MAC_'' @ hostname d @ ''_'' @ name i))],
              emit (INFO, ''ARP reply for {}'', [target_ip]) d)
         | None \<Rightarrow> (None, forward_arp_request m d))"

definition handle_ospf_hello :: "message \<Rightarrow> NetworkDevice \<Rightarrow> NetworkDevice" where
  "handle_ospf_hello m d =
     (if device_type d = ROUTER then emit (INFO, ''OSPF hello reply sent'', []) d else d)"

text \<open>
  \<^verbatim>\<open>_handle_routing_update\<close>. The assignment evaluates \<^verbatim>\<open>route['next_hop']\<close>, then
  \<^verbatim>\<open>route['destination']\<close>, then stores, which hashes the key.
\<close>

definition handle_routing_update :: "message \<Rightarrow> NetworkDevice \<Rightarrow> py_exception + NetworkDevice" where
  "handle_routing_update m d =
     (if device_type d = ROUTER then
        (let route = dict_get m ''route'' in
         if truthy route then
           (case subscript route ''next_hop'' of
              Inl e \<Rightarrow> Inl e
            | Inr next_hop \<Rightarrow>
                (case subscript route ''destination'' of
                   Inl e \<Rightarrow> Inl e
                 | Inr destination \<Rightarrow>
                     if hashable destination
                     then Inr (emit (INFO, ''Updated routing table: {} -> {}'', [destination, next_hop])
                            (d\<lparr>routing_table := AList.update destination next_hop (routing_table d)\<rparr>))
                     else Inl TypeError))
         else Inr d)
      else Inr d)"

text \<open>
  \<^verbatim>\<open>_can_reach_ip\<close>: the loop over the interfaces. A \<^verbatim>\<open>ValueError\<close> of either constructor
  goes on to the next interface; the interface's network is built first.
\<close>

fun can_reach_loop :: "Interface list \<Rightarrow> pyval \<Rightarrow> bool" where
  "can_reach_loop [] target_ip = False"
| "can_reach_loop (i # rest) target_ip =
     (if state i = UP then
        (case IPv4Network (ip_address i @ ''/'' @ subnet_mask i) False of
           None \<Rightarrow> can_reach_loop rest target_ip
         | Some interface_network \<Rightarrow>
             (case IPv4Network_of target_ip True of
                None \<Rightarrow> can_reach_loop rest target_ip
              | Some target_network \<Rightarrow>
                  if subnet_of target_network interface_network then True
                  else can_reach_loop rest target_ip))
      else can_reach_loop rest target_ip)"

definition can_reach_ip :: "NetworkDevice \<Rightarrow> pyval \<Rightarrow> bool" where
  "can_reach_ip d target_ip = can_reach_loop (map snd (interfaces d)) target_ip"

text \<open>\<^verbatim>\<open>_handle_ping\<close>: the reply is built and dropped; the log record remains.\<close>

definition handle_ping :: "message \<Rightarrow> NetworkDevice \<Rightarrow> NetworkDevice" where
  "handle_ping m d =
     (let target_ip = dict_get m ''target_ip'';
          source_ip = dict_get m ''source_ip''
      in if can_reach_ip d target_ip
         then emit (INFO, ''Ping reply sent to {}'', [source_ip]) d
         else forward_ping m d)"

text \<open>
  \<^verbatim>\<open>process_message\<close>: the counter is incremented before the dispatch on the message's
  type. The result is the exception that leaves the method, if any, and the device.
\<close>

definition count_received :: "NetworkDevice \<Rightarrow> NetworkDevice" where
  "count_received d =
     d\<lparr>statistics := (statistics d)\<lparr>packets_received := packets_received (statistics d) + 1\<rparr>\<rparr>"

definition process_message :: "message \<Rightarrow> NetworkDevice \<Rightarrow> py_exception option \<times> NetworkDevice" where
  "process_message m d =
     (let msg_type = dict_get m ''type'';
          d1 = count_received d
      in if msg_type = PyStr ''arp_request'' then (None, snd (handle_arp_request m d1))
         else if msg_type = PyStr ''ospf_hello'' then (None, handle_ospf_hello m d1)
         else if msg_type = PyStr ''routing_update'' then
           (case handle_routing_update m d1 of
              Inl e \<Rightarrow> (Some e, d1)
            | Inr d2 \<Rightarrow> (None, d2))
         else if msg_type = PyStr ''ping'' then (None, handle_ping m d1)
         else (None, emit (WARNING, ''Unknown message type: {}'', [msg_type]) d1))"

text \<open>
  \<^verbatim>\<open>simulate_periodic_tasks\<close> at clock reading \<open>now\<close>: the uptime is refreshed; the
  keepalives and the OSPF hello are \<^verbatim>\<open>debug\<close> calls.
\<close>

definition simulate_periodic_tasks :: "real \<Rightarrow> NetworkDevice \<Rightarrow> NetworkDevice" where
  "simulate_periodic_tasks now d = d\<lparr>statistics := (statistics d)\<lparr>uptime := now\<rparr>\<rparr>"

text \<open>
  One iteration of the loop of \<^verbatim>\<open>run\<close>: the next message of the inbox, if there is
  one, is processed, then the periodic tasks run; an exception skips the rest of the
  iteration, is logged and counts as an error. Of the exception the record keeps the
  class, not the text.
\<close>

definition run_iteration :: "real \<Rightarrow> NetworkDevice \<Rightarrow> NetworkDevice" where
  "run_iteration now d =
     (case message_queue d of
        [] \<Rightarrow> simulate_periodic_tasks now d
      | m # rest \<Rightarrow>
          (case process_message m (d\<lparr>message_queue := rest\<rparr>) of
             (None, d1) \<Rightarrow> simulate_periodic_tasks now d1
           | (Some e, d1) \<Rightarrow>
               emit (ERROR, ''Error in device {}: {}'', [PyStr (hostname d1), PyStr (exception_class e)])
                 (d1\<lparr>statistics := (statistics d1)\<lparr>errors := errors (statistics d1) + 1\<rparr>\<rparr>)))"

text \<open>\<^verbatim>\<open>set_interface_state\<close>: an unknown name changes nothing.\<close>

definition set_interface_state :: "string \<Rightarrow> InterfaceState \<Rightarrow> NetworkDevice \<Rightarrow> NetworkDevice" where
  "set_interface_state n st d =
     (if n \<in> set (map fst (interfaces d))
      then emit (INFO, ''Interface {} state changed to {}'', [PyStr n, PyStr (state_value st)])
             (d\<lparr>interfaces := AList.map_entry n (\<lambda>i. i\<lparr>state := st\<rparr>) (interfaces d)\<rparr>)
      else d)"

text \<open>\<^verbatim>\<open>NetworkDevice.inject_fault('high_cpu')\<close>, the one call the simulator makes.\<close>

definition device_inject_high_cpu :: "NetworkDevice \<Rightarrow> NetworkDevice" where
  "device_inject_high_cpu d = emit (WARNING, ''Fault injected: High CPU usage'', []) d"

section \<open>The topology (\<^verbatim>\<open>core/topology_generator.py\<close>, \<^verbatim>\<open>core/config_parser.py\<close>)\<close>

text \<open>
  The parsed configuration of a device and of its interfaces, with the fields the
  simulator reads.
\<close>

record ParsedInterface =
  pi_name :: string
  pi_ip_address :: string
  pi_subnet_mask :: string
  pi_bandwidth :: int
  pi_mtu :: int
  pi_vlan :: "int option"
  pi_description :: string
  pi_shutdown :: bool
  pi_encapsulation :: "string option"

record ParsedConfig =
  pc_hostname :: string
  pc_interfaces :: "ParsedInterface list"
  pc_routing_protocols :: "string list"
  pc_vlans :: "int list"
  pc_default_gateway :: "string option"

record NetworkLink =
  link_source_device :: string
  link_source_interface :: string
  link_target_device :: string
  link_target_interface :: string
  link_bandwidth :: int
  link_latency :: real
  link_reliability :: real
  link_type :: string

text \<open>
  A \<^verbatim>\<open>NetworkTopology\<close>: the device table, the links, and the graph as the list of its
  nodes, each with the list of its neighbours (what \<^verbatim>\<open>graph.neighbors(node)\<close> yields).
\<close>

record NetworkTopology =
  topo_devices :: "(string \<times> ParsedConfig) list"
  links :: "NetworkLink list"
  graph :: "(string \<times> string list) list"

text \<open>
  A \<^verbatim>\<open>TopologyGenerator\<close> holds the topology it generated last: \<^verbatim>\<open>None\<close> from the
  constructor until \<^verbatim>\<open>generate_topology\<close> stores one.
\<close>

record TopologyGenerator =
  tg_topology :: "NetworkTopology option"

definition TopologyGenerator_init :: TopologyGenerator where
  "TopologyGenerator_init = \<lparr>tg_topology = None\<rparr>"

text \<open>The last step of \<^verbatim>\<open>generate_topology\<close>: the generator keeps the topology.\<close>

definition store_topology :: "NetworkTopology \<Rightarrow> TopologyGenerator \<Rightarrow> TopologyGenerator" where
  "store_topology t g = g\<lparr>tg_topology := Some t\<rparr>"

definition get_device_neighbors :: "TopologyGenerator \<Rightarrow> string \<Rightarrow> string list" where
  "get_device_neighbors g device =
     (case tg_topology g of
        None \<Rightarrow> []
      | Some t \<Rightarrow> (case map_of (graph t) device of Some ns \<Rightarrow> ns | None \<Rightarrow> []))"

section \<open>The simulator (\<^verbatim>\<open>core/simulator.py\<close>)\<close>

record FaultInjection =
  fault_type :: string
  target_device :: string
  target_interface :: "string option"
  parameters :: message
  duration :: "real option"
  start_time :: "real option"

text \<open>The payload of an event holds message values or, under \<^verbatim>\<open>'fault'\<close>, the fault.\<close>

datatype event_datum = Datum pyval | FaultDatum FaultInjection

record SimulationEvent =
  timestamp :: real
  event_type :: string
  source_device :: string
  ev_target_device :: "string option"
  ev_description :: string
  data :: "(string \<times> event_datum) list"

record SimStatistics =
  total_packets :: int
  total_errors :: int
  devices_online :: int
  devices_offline :: int
  links_active :: int
  links_failed :: int

text \<open>
  The \<^verbatim>\<open>NetworkSimulator\<close>. Clock readings (\<^verbatim>\<open>time.time()\<close>) are real numbers that the
  operations take as arguments; \<open>event_queue\<close> is the queue of recorded events that the
  event loop has not yet moved to \<open>events\<close>.
\<close>

record NetworkSimulator =
  topology :: NetworkTopology
  topology_generator :: TopologyGenerator
  devices :: "(string \<times> NetworkDevice) list"
  simulation_running :: bool
  simulation_paused :: bool
  simulation_start_time :: "real option"
  simulation_time :: real
  events :: "SimulationEvent list"
  event_queue :: "SimulationEvent list"
  active_faults :: "FaultInjection list"
  fault_history :: "FaultInjection list"
  sim_statistics :: SimStatistics
  sim_logger :: "log_record list"

definition sim_emit :: "log_record \<Rightarrow> NetworkSimulator \<Rightarrow> NetworkSimulator" where
  "sim_emit r s = s\<lparr>sim_logger := sim_logger s @ [r]\<rparr>"

text \<open>Truth values of the optional arguments, as \<^verbatim>\<open>if x:\<close> tests them.\<close>

definition truthy_float :: "real option \<Rightarrow> bool" where
  "truthy_float x = (case x of None \<Rightarrow> False | Some v \<Rightarrow> v \<noteq> 0)"

definition truthy_str :: "string option \<Rightarrow> bool" where
  "truthy_str x = (case x of None \<Rightarrow> False | Some v \<Rightarrow> v \<noteq> [])"

definition truthy_int :: "int option \<Rightarrow> bool" where
  "truthy_int x = (case x of None \<Rightarrow> False | Some v \<Rightarrow> v \<noteq> 0)"

definition determine_device_type :: "ParsedConfig \<Rightarrow> DeviceType" where
  "determine_device_type config =
     (if pc_routing_protocols config \<noteq> [] \<or> truthy_str (pc_default_gateway config) then ROUTER
      else if pc_vlans config \<noteq> [] \<or> list_ex (\<lambda>intf. truthy_int (pi_vlan intf)) (pc_interfaces config)
      then SWITCH
      else ENDPOINT)"

definition convert_config_for_device :: "ParsedConfig \<Rightarrow> intf_config list" where
  "convert_config_for_device config =
     map (\<lambda>interface.
            \<lparr>cfg_name = pi_name interface, cfg_ip_address = pi_ip_address interface,
             cfg_subnet_mask = pi_subnet_mask interface, cfg_bandwidth = pi_bandwidth interface,
             cfg_mtu = pi_mtu interface, cfg_vlan = pi_vlan interface,
             cfg_description = pi_description interface\<rparr>)
         (pc_interfaces config)"

text \<open>
  One round of the loop of \<^verbatim>\<open>_initialize_devices\<close>: the device is built, stored under
  its hostname, and given the neighbours that the simulator's own generator reports.
\<close>

definition initialize_device ::
  "TopologyGenerator \<Rightarrow> (string \<times> NetworkDevice) list \<Rightarrow> string \<times> ParsedConfig
     \<Rightarrow> (string \<times> NetworkDevice) list" where
  "initialize_device g ds hc =
     (let device = NetworkDevice_init (fst hc) (determine_device_type (snd hc))
                     (convert_config_for_device (snd hc));
          nbrs = get_device_neighbors g (fst hc)
      in AList.update (fst hc) (foldl (\<lambda>d n. add_neighbor n d) device nbrs) ds)"

definition initialize_devices :: "NetworkSimulator \<Rightarrow> NetworkSimulator" where
  "initialize_devices s =
     (let s1 = sim_emit (INFO, ''Initializing network devices...'', []) s;
          ds = foldl (initialize_device (topology_generator s1)) (devices s1)
                 (topo_devices (topology s1))
      in sim_emit (INFO, ''Initialized {} devices'', [PyInt (int (length ds))])
           (s1\<lparr>devices := ds\<rparr>))"

text \<open>
  \<^verbatim>\<open>NetworkSimulator.__init__\<close>: the simulator keeps the topology it is given and makes a
  \<^verbatim>\<open>TopologyGenerator\<close> of its own with the constructor.
\<close>

definition NetworkSimulator_init :: "NetworkTopology \<Rightarrow> NetworkSimulator" where
  "NetworkSimulator_init t =
     initialize_devices
       \<lparr>topology = t, topology_generator = TopologyGenerator_init, devices = [],
        simulation_running = False, simulation_paused = False,
        simulation_start_time = None, simulation_time = 0,
        events = [], event_queue = [], active_faults = [], fault_history = [],
        sim_statistics = \<lparr>total_packets = 0, total_errors = 0, devices_online = 0,
                          devices_offline = 0, links_active = 0, links_failed = 0\<rparr>,
        sim_logger = []\<rparr>"

text \<open>
  \<^verbatim>\<open>Thread.start()\<close>: the device's thread is alive from now on; a thread that has been
  started before raises \<^verbatim>\<open>RuntimeError\<close>.
\<close>

definition device_start :: "NetworkDevice \<Rightarrow> py_exception + NetworkDevice" where
  "device_start d = (if started d then Inl RuntimeError else Inr (d\<lparr>started := True, alive := True\<rparr>))"

fun start_devices ::
  "(string \<times> NetworkDevice) list \<Rightarrow> py_exception option \<times> (string \<times> NetworkDevice) list" where
  "start_devices [] = (None, [])"
| "start_devices (entry # rest) =
     (case device_start (snd entry) of
        Inl e \<Rightarrow> (Some e, entry # rest)
      | Inr d \<Rightarrow> (case start_devices rest of (e, rest') \<Rightarrow> (e, (fst entry, d) # rest')))"

text \<open>
  \<^verbatim>\<open>start_simulation\<close> at clock reading \<open>now\<close>, up to the point where the device threads
  and the three background threads have been started and none has run yet. The result is
  the exception that leaves the method, if any, and the simulator.
\<close>

definition start_simulation :: "real \<Rightarrow> NetworkSimulator \<Rightarrow> py_exception option \<times> NetworkSimulator" where
  "start_simulation now s =
     (if simulation_running s
      then (None, sim_emit (WARNING, ''Simulation is already running'', []) s)
      else
        (let s1 = sim_emit (INFO, ''Starting network simulation...'', []) s;
             s2 = s1\<lparr>simulation_running := True, simulation_paused := False,
                     simulation_start_time := Some now\<rparr>
         in case start_devices (devices s2) of
              (Some e, ds) \<Rightarrow> (Some e, s2\<lparr>devices := ds\<rparr>)
            | (None, ds) \<Rightarrow>
                (None, sim_emit (INFO, ''Network simulation started successfully'', [])
                         (s2\<lparr>devices := ds\<rparr>))))"

text \<open>\<^verbatim>\<open>_record_event\<close> at clock reading \<open>now\<close>: the event is put on the queue.\<close>

definition record_event ::
  "real \<Rightarrow> string \<Rightarrow> string \<Rightarrow> string option \<Rightarrow> string \<Rightarrow> (string \<times> event_datum) list
     \<Rightarrow> NetworkSimulator \<Rightarrow> NetworkSimulator" where
  "record_event now et src tgt descr payload s =
     s\<lparr>event_queue := event_queue s @
         [\<lparr>timestamp = now, event_type = et, source_device = src, ev_target_device = tgt,
           ev_description = descr, data = payload\<rparr>]\<rparr>"

text \<open>A method call on the device stored under a hostname.\<close>

definition on_device ::
  "string \<Rightarrow> (NetworkDevice \<Rightarrow> NetworkDevice) \<Rightarrow> NetworkSimulator \<Rightarrow> NetworkSimulator" where
  "on_device h f s = s\<lparr>devices := AList.map_entry h f (devices s)\<rparr>"

text \<open>
  The body of the loop of a link failure: the neighbour is removed from the target device
  and, where the neighbour is a device of the table, the target device from the
  neighbour. The body of the loop that undoes it adds where this one removes.
\<close>

definition unlink :: "string \<Rightarrow> NetworkSimulator \<Rightarrow> string \<Rightarrow> NetworkSimulator" where
  "unlink dev s neighbor =
     (let s1 = on_device dev (remove_neighbor neighbor) s
      in if neighbor \<in> set (map fst (devices s1))
         then on_device neighbor (remove_neighbor dev) s1
         else s1)"

definition relink :: "string \<Rightarrow> NetworkSimulator \<Rightarrow> string \<Rightarrow> NetworkSimulator" where
  "relink dev s neighbor =
     (let s1 = on_device dev (add_neighbor neighbor) s
      in if neighbor \<in> set (map fst (devices s1))
         then on_device neighbor (add_neighbor dev) s1
         else s1)"

text \<open>
  \<^verbatim>\<open>_apply_fault\<close>. \<^verbatim>\<open>self.devices[fault.target_device]\<close> raises \<^verbatim>\<open>KeyError\<close> for an
  unknown device. A link failure runs over a copy of the device's neighbour list.
\<close>

definition apply_fault :: "FaultInjection \<Rightarrow> NetworkSimulator \<Rightarrow> py_exception + NetworkSimulator" where
  "apply_fault fault s =
     (case map_of (devices s) (target_device fault) of
        None \<Rightarrow> Inl KeyError
      | Some device \<Rightarrow>
          if fault_type fault = ''interface_down'' then
            (if truthy_str (target_interface fault)
             then Inr (on_device (target_device fault)
                         (set_interface_state (the (target_interface fault)) DOWN) s)
             else Inr (on_device (target_device fault)
                         (\<lambda>d. foldl (\<lambda>d n. set_interface_state n DOWN d) d (map fst (interfaces device))) s))
          else if fault_type fault = ''link_failure'' then
            Inr (foldl (unlink (target_device fault)) s (neighbors device))
          else if fault_type fault = ''high_cpu'' \<or> fault_type fault = ''memory_leak''
                  \<or> fault_type fault = ''packet_loss'' then
            Inr (on_device (target_device fault) device_inject_high_cpu s)
          else Inr (sim_emit (WARNING, ''Unknown fault type: {}'', [PyStr (fault_type fault)]) s))"

text \<open>
  \<^verbatim>\<open>_remove_fault\<close>. A link failure is undone with the neighbours that the simulator's
  own generator reports.
\<close>

definition remove_fault :: "FaultInjection \<Rightarrow> NetworkSimulator \<Rightarrow> py_exception + NetworkSimulator" where
  "remove_fault fault s =
     (case map_of (devices s) (target_device fault) of
        None \<Rightarrow> Inl KeyError
      | Some device \<Rightarrow>
          Inr (sim_emit (INFO, ''Fault removed: {} from {}'',
                         [PyStr (fault_type fault), PyStr (target_device fault)])
            (if fault_type fault = ''interface_down'' then
               (if truthy_str (target_interface fault)
                then on_device (target_device fault)
                       (set_interface_state (the (target_interface fault)) UP) s
                else on_device (target_device fault)
                       (\<lambda>d. foldl (\<lambda>d n. set_interface_state n UP d) d (map fst (interfaces device))) s)
             else if fault_type fault = ''link_failure'' then
               foldl (relink (target_device fault)) s
                 (get_device_neighbors (topology_generator s) (target_device fault))
             else s)))"

text \<open>The \<^verbatim>\<open>FaultInjection\<close> that \<^verbatim>\<open>inject_fault\<close> constructs at clock reading \<open>now\<close>.\<close>

definition make_fault ::
  "string \<Rightarrow> string \<Rightarrow> string option \<Rightarrow> message option \<Rightarrow> real option \<Rightarrow> real \<Rightarrow> FaultInjection" where
  "make_fault ft dev intf params dur now =
     \<lparr>fault_type = ft, target_device = dev, target_interface = intf,
      parameters = (case params of None \<Rightarrow> [] | Some p \<Rightarrow> p),
      duration = dur,
      start_time = (if truthy_float dur then Some now else None)\<rparr>"

text \<open>
  \<^verbatim>\<open>inject_fault\<close>; \<open>now\<close> is the clock reading of the fault's construction and \<open>now'\<close>
  that of the event's. The method returns \<^verbatim>\<open>None\<close> on every path, so the result is the
  exception that leaves it, if any, or the simulator.
\<close>

definition inject_fault ::
  "string \<Rightarrow> string \<Rightarrow> string option \<Rightarrow> message option \<Rightarrow> real option \<Rightarrow> real \<Rightarrow> real
     \<Rightarrow> NetworkSimulator \<Rightarrow> py_exception + NetworkSimulator" where
  "inject_fault ft dev intf params dur now now' s =
     (if dev \<notin> set (map fst (devices s))
      then Inr (sim_emit (ERROR, ''Target device {} not found'', [PyStr dev]) s)
      else
        (let fault = make_fault ft dev intf params dur now;
             s1 = s\<lparr>active_faults := active_faults s @ [fault],
                    fault_history := fault_history s @ [fault]\<rparr>
         in case apply_fault fault s1 of
              Inl e \<Rightarrow> Inl e
            | Inr s2 \<Rightarrow>
                Inr (record_event now' ''fault_injected'' dev None
                       (''Fault '' @ ft @ '' injected'') [(''fault'', FaultDatum fault)]
                       (sim_emit (INFO, ''Fault injected: {} on {}'', [PyStr ft, PyStr dev]) s2))))"

text \<open>
  What \<^verbatim>\<open>inject_fault\<close> returns to its caller: the early exit is a bare \<^verbatim>\<open>return\<close> and
  the other path runs off the end of the method, so it is \<^verbatim>\<open>None\<close> whenever no exception
  leaves the method.
\<close>

definition inject_fault_returns ::
  "string \<Rightarrow> string \<Rightarrow> string option \<Rightarrow> message option \<Rightarrow> real option \<Rightarrow> real \<Rightarrow> real
     \<Rightarrow> NetworkSimulator \<Rightarrow> py_exception + pyval" where
  "inject_fault_returns ft dev intf params dur now now' s =
     (case inject_fault ft dev intf params dur now now' s of
        Inl e \<Rightarrow> Inl e
      | Inr s' \<Rightarrow> Inr PyNone)"

text \<open>
  The first loop of one round of \<^verbatim>\<open>_process_faults\<close> at clock reading \<open>now\<close>: every
  active fault whose duration and start time are both truthy and whose time is up is
  reverted and noted. An exception ends the round. Here the difference of the two clock
  readings is the exact one; \<open>expired_float\<close> below takes the float subtraction.
\<close>

definition expired :: "real \<Rightarrow> FaultInjection \<Rightarrow> bool" where
  "expired now fault \<longleftrightarrow>
     truthy_float (duration fault) \<and> truthy_float (start_time fault) \<and>
     now - the (start_time fault) \<ge> the (duration fault)"

fun revert_expired ::
  "real \<Rightarrow> FaultInjection list \<Rightarrow> NetworkSimulator \<Rightarrow> FaultInjection list
     \<Rightarrow> py_exception option \<times> NetworkSimulator \<times> FaultInjection list" where
  "revert_expired now [] s faults_to_remove = (None, s, faults_to_remove)"
| "revert_expired now (fault # rest) s faults_to_remove =
     (if expired now fault then
        (case remove_fault fault s of
           Inl e \<Rightarrow> (Some e, s, faults_to_remove)
         | Inr s1 \<Rightarrow> revert_expired now rest s1 (faults_to_remove @ [fault]))
      else revert_expired now rest s faults_to_remove)"

text \<open>
  The second loop: \<^verbatim>\<open>list.remove\<close> takes out the first element equal to the fault and
  raises \<^verbatim>\<open>ValueError\<close> when there is none.
\<close>

fun remove_faults ::
  "FaultInjection list \<Rightarrow> FaultInjection list \<Rightarrow> py_exception option \<times> FaultInjection list" where
  "remove_faults [] active = (None, active)"
| "remove_faults (fault # rest) active =
     (if fault \<in> set active then remove_faults rest (remove1 fault active)
      else (Some ValueError, active))"

text \<open>
  One round of the loop of \<^verbatim>\<open>_process_faults\<close>, which runs once a second while the
  simulation is running. An exception is caught and logged; what the round had changed
  until then stays changed.
\<close>

definition process_faults_tick :: "real \<Rightarrow> NetworkSimulator \<Rightarrow> NetworkSimulator" where
  "process_faults_tick now s =
     (case revert_expired now (active_faults s) s [] of
        (Some e, s1, faults_to_remove) \<Rightarrow>
          sim_emit (ERROR, ''Error processing faults: {}'', [PyStr (exception_class e)]) s1
      | (None, s1, faults_to_remove) \<Rightarrow>
          (case remove_faults faults_to_remove (active_faults s1) of
             (Some e, active) \<Rightarrow>
               sim_emit (ERROR, ''Error processing faults: {}'', [PyStr (exception_class e)])
                 (s1\<lparr>active_faults := active\<rparr>)
           | (None, active) \<Rightarrow> s1\<lparr>active_faults := active\<rparr>))"

text \<open>
  Rounds at the clock readings \<open>ts\<close>, in this order, one for each reading whatever the
  \<^verbatim>\<open>simulation_running\<close> flag says; \<open>process_faults_loop\<close> below has the loop's guard.
\<close>

definition process_faults :: "real list \<Rightarrow> NetworkSimulator \<Rightarrow> NetworkSimulator" where
  "process_faults ts s = foldl (\<lambda>s now. process_faults_tick now s) s ts"

text \<open>
  The loop as the interpreter runs it. Clock readings and durations are floats, which are
  real numbers. Of the operations of a round only the subtraction
  \<^verbatim>\<open>current_time - fault.start_time\<close> rounds (the comparison with the duration is exact),
  so Python's float subtraction is the argument \<open>sub\<close> of the model. The loop makes a
  round only while \<^verbatim>\<open>simulation_running\<close> holds and ends when it does not.
\<close>

definition expired_float :: "(real \<Rightarrow> real \<Rightarrow> real) \<Rightarrow> real \<Rightarrow> FaultInjection \<Rightarrow> bool" where
  "expired_float sub now fault \<longleftrightarrow>
     truthy_float (duration fault) \<and> truthy_float (start_time fault) \<and>
     sub now (the (start_time fault)) \<ge> the (duration fault)"

fun revert_expired_float ::
  "(real \<Rightarrow> real \<Rightarrow> real) \<Rightarrow> real \<Rightarrow> FaultInjection list \<Rightarrow> NetworkSimulator \<Rightarrow> FaultInjection list
     \<Rightarrow> py_exception option \<times> NetworkSimulator \<times> FaultInjection list" where
  "revert_expired_float sub now [] s faults_to_remove = (None, s, faults_to_remove)"
| "revert_expired_float sub now (fault # rest) s faults_to_remove =
     (if expired_float sub now fault then
        (case remove_fault fault s of
           Inl e \<Rightarrow> (Some e, s, faults_to_remove)
         | Inr s1 \<Rightarrow> revert_expired_float sub now rest s1 (faults_to_remove @ [fault]))
      else revert_expired_float sub now rest s faults_to_remove)"

definition process_faults_round :: "(real \<Rightarrow> real \<Rightarrow> real) \<Rightarrow> real \<Rightarrow> NetworkSimulator \<Rightarrow> NetworkSimulator" where
  "process_faults_round sub now s =
     (case revert_expired_float sub now (active_faults s) s [] of
        (Some e, s1, faults_to_remove) \<Rightarrow>
          sim_emit (ERROR, ''Error processing faults: {}'', [PyStr (exception_class e)]) s1
      | (None, s1, faults_to_remove) \<Rightarrow>
          (case remove_faults faults_to_remove (active_faults s1) of
             (Some e, active) \<Rightarrow>
               sim_emit (ERROR, ''Error processing faults: {}'', [PyStr (exception_class e)])
                 (s1\<lparr>active_faults := active\<rparr>)
           | (None, active) \<Rightarrow> s1\<lparr>active_faults := active\<rparr>))"

fun process_faults_loop ::
  "(real \<Rightarrow> real \<Rightarrow> real) \<Rightarrow> real list \<Rightarrow> NetworkSimulator \<Rightarrow> NetworkSimulator" where
  "process_faults_loop sub [] s = s"
| "process_faults_loop sub (now # rest) s =
     (if simulation_running s then process_faults_loop sub rest (process_faults_round sub now s)
      else s)"

text \<open>\<^verbatim>\<open>get_network_status\<close>: the snapshot and, in it, the summary of every device.\<close>

record DeviceSummary =
  online :: bool
  summary_neighbors :: "string list"
  summary_interfaces :: nat

record NetworkStatus =
  status_running :: bool
  status_paused :: bool
  status_time :: real
  total_devices :: nat
  status_active_faults :: nat
  status_statistics :: SimStatistics
  status_devices :: "(string \<times> DeviceSummary) list"

definition get_network_status :: "NetworkSimulator \<Rightarrow> NetworkStatus" where
  "get_network_status s =
     \<lparr>status_running = simulation_running s, status_paused = simulation_paused s,
      status_time = simulation_time s, total_devices = length (devices s),
      status_active_faults = length (active_faults s),
      status_statistics = sim_statistics s,
      status_devices =
        foldl (\<lambda>st (h, device).
                 AList.update h \<lparr>online = alive device, summary_neighbors = neighbors device,
                                 summary_interfaces = length (interfaces device)\<rparr> st)
          [] (devices s)\<rparr>"

text \<open>
  \<^verbatim>\<open>xs[i:]\<close>: a negative start counts from the end, and a start before the first
  element is the first element.
\<close>

definition slice_from :: "int \<Rightarrow> 'a list \<Rightarrow> 'a list" where
  "slice_from i xs = (if i < 0 then drop (nat (int (length xs) + i)) xs else drop (nat i) xs)"

text \<open>
  \<^verbatim>\<open>get_simulation_events\<close>: both optional arguments are tested for their truth value.
\<close>

definition get_simulation_events ::
  "string option \<Rightarrow> int option \<Rightarrow> NetworkSimulator \<Rightarrow> SimulationEvent list" where
  "get_simulation_events et limit s =
     (let evs = events s;
          evs1 = (if truthy_str et then filter (\<lambda>e. event_type e = the et) evs else evs)
      in if truthy_int limit then slice_from (- the limit) evs1 else evs1)"

section \<open>The application (\<^verbatim>\<open>main.py\<close>)\<close>

text \<open>
  \<^verbatim>\<open>NetworkSimulatorApp.inject_fault\<close>, the caller of the simulator's method: what it
  returns and what it logs. It passes no parameter mapping, and it reports success
  whenever the simulator's method raises nothing.
\<close>

definition app_inject_fault ::
  "NetworkSimulator option \<Rightarrow> string \<Rightarrow> string \<Rightarrow> string option \<Rightarrow> real option \<Rightarrow> real \<Rightarrow> real
     \<Rightarrow> bool \<times> log_record list" where
  "app_inject_fault simulator ft dev intf dur now now' =
     (case simulator of
        None \<Rightarrow> (False, [(ERROR, ''No active simulation to inject fault into'', [])])
      | Some s \<Rightarrow>
          (case inject_fault ft dev intf None dur now now' s of
             Inl e \<Rightarrow> (False, [(ERROR, ''Error injecting fault: {}'', [PyStr (exception_class e)])])
           | Inr s' \<Rightarrow> (True, [(INFO, ''Fault injected: {} on {}'', [PyStr ft, PyStr dev])])))"

section \<open>Predicates and sample inputs of the properties\<close>

text \<open>A message whose type is none of the four that \<^verbatim>\<open>process_message\<close> dispatches on.\<close>

definition unrecognized :: "message \<Rightarrow> bool" where
  "unrecognized m \<longleftrightarrow>
     dict_get m ''type'' \<noteq> PyStr ''arp_request'' \<and> dict_get m ''type'' \<noteq> PyStr ''ospf_hello'' \<and>
     dict_get m ''type'' \<noteq> PyStr ''routing_update'' \<and> dict_get m ''type'' \<noteq> PyStr ''ping''"

text \<open>A router with two configured interfaces, and the same router with both brought down.\<close>

definition sample_device :: NetworkDevice where
  "sample_device =
     NetworkDevice_init ''R1'' ROUTER
       [\<lparr>cfg_name = ''eth0'', cfg_ip_address = ''192.168.1.1'', cfg_subnet_mask = ''255.255.255.0'',
         cfg_bandwidth = 100, cfg_mtu = 1500, cfg_vlan = None, cfg_description = ''uplink''\<rparr>,
        \<lparr>cfg_name = ''eth1'', cfg_ip_address = ''10.0.0.1'', cfg_subnet_mask = ''255.0.0.0'',
         cfg_bandwidth = 1000, cfg_mtu = 1500, cfg_vlan = None, cfg_description = ''''\<rparr>]"

definition down_device :: NetworkDevice where
  "down_device = set_interface_state ''eth1'' ADMIN_DOWN (set_interface_state ''eth0'' DOWN sample_device)"

text \<open>
  The network of an interface, as \<^verbatim>\<open>_can_reach_ip\<close> builds it, and the test the loop makes
  for one interface: both networks can be built and the target's is a subnet of the
  interface's.
\<close>

definition interface_network :: "Interface \<Rightarrow> ipv4net option" where
  "interface_network i = IPv4Network (ip_address i @ ''/'' @ subnet_mask i) False"

definition covers :: "Interface \<Rightarrow> pyval \<Rightarrow> bool" where
  "covers i target_ip =
     (case interface_network i of
        None \<Rightarrow> False
      | Some n \<Rightarrow> (case IPv4Network_of target_ip True of None \<Rightarrow> False | Some t \<Rightarrow> subnet_of t n))"

text \<open>
  A topology of three devices, each linked to the other two, and the simulator that the
  constructor builds from it.
\<close>

definition sample_config :: "string \<Rightarrow> string \<Rightarrow> ParsedConfig" where
  "sample_config h ip =
     \<lparr>pc_hostname = h,
      pc_interfaces = [\<lparr>pi_name = ''eth0'', pi_ip_address = ip, pi_subnet_mask = ''255.255.255.0'',
                        pi_bandwidth = 100, pi_mtu = 1500, pi_vlan = None, pi_description = '''',
                        pi_shutdown = False, pi_encapsulation = None\<rparr>],
      pc_routing_protocols = [], pc_vlans = [], pc_default_gateway = None\<rparr>"

definition sample_link :: "string \<Rightarrow> string \<Rightarrow> NetworkLink" where
  "sample_link a b =
     \<lparr>link_source_device = a, link_source_interface = ''eth0'', link_target_device = b,
      link_target_interface = ''eth0'', link_bandwidth = 100, link_latency = 1,
      link_reliability = 1, link_type = ''ethernet''\<rparr>"

definition sample_topology :: NetworkTopology where
  "sample_topology =
     \<lparr>topo_devices = [(''A'', sample_config ''A'' ''10.0.0.1''), (''B'', sample_config ''B'' ''10.0.0.2''),
                      (''C'', sample_config ''C'' ''10.0.0.3'')],
      links = [sample_link ''A'' ''B'', sample_link ''A'' ''C'', sample_link ''B'' ''C''],
      graph = [(''A'', [''B'', ''C'']), (''B'', [''A'', ''C'']), (''C'', [''A'', ''B''])]\<rparr>"

definition sample_simulator :: NetworkSimulator where
  "sample_simulator = NetworkSimulator_init sample_topology"

text \<open>
  The events that match a kind filter (an absent or empty filter matches every event),
  the most recent \<open>n\<close> elements of a list, and an event log of three events.
\<close>

definition matching_events :: "string option \<Rightarrow> SimulationEvent list \<Rightarrow> SimulationEvent list" where
  "matching_events kind evs =
     (case kind of
        None \<Rightarrow> evs
      | Some k \<Rightarrow> if k = [] then evs else filter (\<lambda>e. event_type e = k) evs)"

definition most_recent :: "nat \<Rightarrow> 'a list \<Rightarrow> 'a list" where
  "most_recent n xs = drop (length xs - n) xs"

definition sample_event :: "real \<Rightarrow> string \<Rightarrow> SimulationEvent" where
  "sample_event t k =
     \<lparr>timestamp = t, event_type = k, source_device = ''A'', ev_target_device = None,
      ev_description = '''', data = []\<rparr>"

definition sample_log :: NetworkSimulator where
  "sample_log =
     sample_simulator\<lparr>events := [sample_event 1 ''packet_sent'', sample_event 2 ''fault_injected'',
                                 sample_event 3 ''packet_sent'']\<rparr>"

text \<open>
  Every active fault targets a device of the table. This holds in the simulator that the
  constructor builds and after every \<^verbatim>\<open>inject_fault\<close> and every round of the expiry loop.
\<close>

definition targets_known :: "NetworkSimulator \<Rightarrow> bool" where
  "targets_known s = list_all (\<lambda>f. target_device f \<in> set (map fst (devices s))) (active_faults s)"

text \<open>
  What applying and reverting a fault leave alone: the two fault lists, the keys of the
  device table and the events.
\<close>

definition same_faults :: "NetworkSimulator \<Rightarrow> NetworkSimulator \<Rightarrow> bool" where
  "same_faults s s' \<longleftrightarrow>
     active_faults s' = active_faults s \<and> fault_history s' = fault_history s \<and>
     map fst (devices s') = map fst (devices s) \<and>
     events s' = events s \<and> event_queue s' = event_queue s"

text \<open>
  The neighbour list of every device of the table. The sample simulator, started, after
  \<^verbatim>\<open>add_neighbor\<close> has made each of its three devices a neighbour of the other two; and that
  simulator after a link failure of two seconds has been injected on \<^verbatim>\<open>A\<close> at clock
  reading 1000.
\<close>

definition neighbor_table :: "NetworkSimulator \<Rightarrow> (string \<times> string list) list" where
  "neighbor_table s = map (\<lambda>(h, d). (h, neighbors d)) (devices s)"

definition linked_simulator :: NetworkSimulator where
  "linked_simulator =
     foldl (\<lambda>s (a, b). on_device a (add_neighbor b) s) (snd (start_simulation 1000 sample_simulator))
       [(''A'', ''B''), (''A'', ''C''), (''B'', ''A''), (''B'', ''C''), (''C'', ''A''), (''C'', ''B'')]"

definition link_failed_simulator :: NetworkSimulator where
  "link_failed_simulator =
     projr (inject_fault ''link_failure'' ''A'' None None (Some 2) 1000 1000 linked_simulator)"


text \<open>The device that the constructor builds for one entry of the topology's device table.\<close>

definition fresh_device :: "string \<times> ParsedConfig \<Rightarrow> NetworkDevice" where
  "fresh_device hc =
     NetworkDevice_init (fst hc) (determine_device_type (snd hc)) (convert_config_for_device (snd hc))"

text \<open>
  The \<^verbatim>\<open>simulation_running\<close> flag is the same in both simulators; and the sample
  simulator after \<^verbatim>\<open>start_simulation\<close>.
\<close>

definition same_running :: "NetworkSimulator \<Rightarrow> NetworkSimulator \<Rightarrow> bool" where
  "same_running s s' \<longleftrightarrow> simulation_running s' = simulation_running s"

definition started_simulator :: NetworkSimulator where
  "started_simulator = snd (start_simulation 1000 sample_simulator)"

section \<open>Properties of the device\<close>

subsection \<open>Counting received messages\<close>

lemma statistics_emit: "statistics (emit r d) = statistics d"
  by (simp add: emit_def)

lemma received_count_received:
  "packets_received (statistics (count_received d)) = packets_received (statistics d) + 1"
  by (simp add: count_received_def)

lemma errors_count_received: "errors (statistics (count_received d)) = errors (statistics d)"
  by (simp add: count_received_def)

lemma statistics_handle_arp_request: "statistics (snd (handle_arp_request m d)) = statistics d"
  by (simp add: handle_arp_request_def Let_def forward_arp_request_def statistics_emit split: option.split)

lemma statistics_handle_ospf_hello: "statistics (handle_ospf_hello m d) = statistics d"
  by (simp add: handle_ospf_hello_def statistics_emit)

lemma statistics_handle_routing_update:
  "handle_routing_update m d = Inr d' \<Longrightarrow> statistics d' = statistics d"
  by (auto simp: handle_routing_update_def Let_def statistics_emit split: if_splits sum.splits)

lemma statistics_handle_ping: "statistics (handle_ping m d) = statistics d"
  by (simp add: handle_ping_def Let_def forward_ping_def statistics_emit)

lemma statistics_process_message:
  "statistics (snd (process_message m d)) = statistics (count_received d)"
  by (auto simp: process_message_def Let_def statistics_handle_arp_request
        statistics_handle_ospf_hello statistics_handle_ping statistics_emit
      split: sum.split dest: statistics_handle_routing_update)

text \<open>
  Claim C9. Processing any message adds exactly one to \<^verbatim>\<open>packets_received\<close>, on every
  path of the dispatch, also the one that raises. A message of an unrecognised type is
  answered with a warning record and nothing else: the device is the counted one plus
  the record, its error counter is unchanged, and the loop of \<^verbatim>\<open>run\<close> that takes the
  message from the inbox leaves the error counter unchanged too.
\<close>

theorem process_message_counts_received:
  "packets_received (statistics (snd (process_message m d))) = packets_received (statistics d) + 1 \<and>
   (unrecognized m \<longrightarrow>
      process_message m d =
        (None, emit (WARNING, ''Unknown message type: {}'', [dict_get m ''type'']) (count_received d)) \<and>
      errors (statistics (snd (process_message m d))) = errors (statistics d) \<and>
      errors (statistics (run_iteration now (d\<lparr>message_queue := m # q\<rparr>))) = errors (statistics d))"
proof -
  have received: "packets_received (statistics (snd (process_message m d))) = packets_received (statistics d) + 1"
    by (simp add: statistics_process_message received_count_received)
  have dropped: "process_message m d' =
        (None, emit (WARNING, ''Unknown message type: {}'', [dict_get m ''type'']) (count_received d'))"
    if "unrecognized m" for d'
    using that by (simp add: process_message_def Let_def unrecognized_def)
  have errs: "errors (statistics (snd (process_message m d'))) = errors (statistics d')" for d'
    by (simp add: statistics_process_message errors_count_received)
  have run: "errors (statistics (run_iteration now (d\<lparr>message_queue := m # q\<rparr>))) = errors (statistics d)"
    if "unrecognized m"
    using that dropped [of "d\<lparr>message_queue := q\<rparr>"]
    by (simp add: run_iteration_def simulate_periodic_tasks_def statistics_emit count_received_def)
  from received dropped errs run show ?thesis by blast
qed

theorem process_message_counts_received_witness:
  "unrecognized [(''type'', PyStr ''bogus'')] \<and>
   packets_received (statistics (snd (process_message [(''type'', PyStr ''bogus'')] sample_device))) = 1 \<and>
   errors (statistics (snd (process_message [(''type'', PyStr ''bogus'')] sample_device))) = 0 \<and>
   errors (statistics (run_iteration 5 (sample_device\<lparr>message_queue := [[(''type'', PyStr ''bogus'')]]\<rparr>))) = 0"
proof -
  have u: "unrecognized [(''type'', PyStr ''bogus'')]"
    by (simp add: unrecognized_def dict_get_def)
  have s: "statistics sample_device = \<lparr>packets_sent = 0, packets_received = 0, errors = 0, uptime = 0\<rparr>"
    by (simp add: sample_device_def NetworkDevice_init_def)
  show ?thesis
    using u process_message_counts_received [of "[(''type'', PyStr ''bogus'')]" sample_device 5 "[]"]
    by (simp add: s statistics_emit count_received_def)
qed

subsection \<open>ARP replies\<close>

lemma find_witness: "x \<in> set xs \<Longrightarrow> P x \<Longrightarrow> \<exists>y. find P xs = Some y \<and> y \<in> set xs \<and> P y"
  by (induction xs) auto

text \<open>
  Claim C10. An \<^verbatim>\<open>arp_request\<close> whose target address is the address of an interface of
  the device is answered: the reply echoes the target as its source address, carries the
  request's source MAC as its target MAC, and names an interface with that address. No
  interface state is asked for, and the reply is the same whatever the states of the
  interfaces are set to, so a device all of whose interfaces are down answers too.
\<close>

theorem arp_reply_regardless_of_state:
  "i \<in> snd ` set (interfaces d) \<Longrightarrow> dict_get m ''target_ip'' = PyStr (ip_address i) \<Longrightarrow>
   (\<exists>j. j \<in> snd ` set (interfaces d) \<and> ip_address j = ip_address i \<and>
        fst (handle_arp_request m d) =
          Some [(''type'', PyStr ''arp_reply''),
                (''target_mac'', dict_get m ''source_mac''),
                (''source_ip'', PyStr (ip_address i)),
                (''source_mac'', PyStr (''MAC_'' @ hostname d @ ''_'' @ name j))]) \<and>
   fst (handle_arp_request m (d\<lparr>interfaces := map (\<lambda>(k, x). (k, x\<lparr>state := st k x\<rparr>)) (interfaces d)\<rparr>)) =
     fst (handle_arp_request m d)"
proof -
  assume i: "i \<in> snd ` set (interfaces d)" and t: "dict_get m ''target_ip'' = PyStr (ip_address i)"
  let ?P = "\<lambda>x. PyStr (ip_address x) = dict_get m ''target_ip''"
  from i t obtain j where j: "find ?P (map snd (interfaces d)) = Some j"
      "j \<in> set (map snd (interfaces d))" "?P j"
    using find_witness [of i "map snd (interfaces d)" ?P] by auto
  have reply: "\<exists>j. j \<in> snd ` set (interfaces d) \<and> ip_address j = ip_address i \<and>
        fst (handle_arp_request m d) =
          Some [(''type'', PyStr ''arp_reply''),
                (''target_mac'', dict_get m ''source_mac''),
                (''source_ip'', PyStr (ip_address i)),
                (''source_mac'', PyStr (''MAC_'' @ hostname d @ ''_'' @ name j))]"
    using j t by (intro exI [of _ j]) (simp add: handle_arp_request_def Let_def)
  let ?g = "\<lambda>(k, x). (k, x\<lparr>state := st k x\<rparr>)"
  have found: "(case find ?P (map snd (map ?g xs)) of None \<Rightarrow> None | Some x \<Rightarrow> Some (name x)) =
               (case find ?P (map snd xs) of None \<Rightarrow> None | Some x \<Rightarrow> Some (name x))" for xs
    by (induction xs) auto
  have same: "fst (handle_arp_request m (d\<lparr>interfaces := map ?g (interfaces d)\<rparr>)) = fst (handle_arp_request m d)"
    using found [of "interfaces d"]
    by (auto simp: handle_arp_request_def Let_def split: option.splits)
  from reply same show ?thesis by blast
qed

lemma interfaces_sample_device:
  "interfaces sample_device =
     [(''eth0'', \<lparr>name = ''eth0'', ip_address = ''192.168.1.1'', subnet_mask = ''255.255.255.0'',
                 bandwidth = 100, mtu = 1500, state = UP, vlan = None, description = ''uplink''\<rparr>),
      (''eth1'', \<lparr>name = ''eth1'', ip_address = ''10.0.0.1'', subnet_mask = ''255.0.0.0'',
                 bandwidth = 1000, mtu = 1500, state = UP, vlan = None, description = ''''\<rparr>)]"
  by (simp add: sample_device_def NetworkDevice_init_def initialize_interfaces_def interface_of_config_def)

lemma interfaces_down_device:
  "interfaces down_device =
     [(''eth0'', \<lparr>name = ''eth0'', ip_address = ''192.168.1.1'', subnet_mask = ''255.255.255.0'',
                 bandwidth = 100, mtu = 1500, state = DOWN, vlan = None, description = ''uplink''\<rparr>),
      (''eth1'', \<lparr>name = ''eth1'', ip_address = ''10.0.0.1'', subnet_mask = ''255.0.0.0'',
                 bandwidth = 1000, mtu = 1500, state = ADMIN_DOWN, vlan = None, description = ''''\<rparr>)]"
  by (simp add: down_device_def set_interface_state_def emit_def interfaces_sample_device)

lemma hostname_down_device: "hostname down_device = ''R1''"
  by (simp add: down_device_def set_interface_state_def emit_def sample_device_def NetworkDevice_init_def)

theorem arp_reply_regardless_of_state_witness:
  "list_all (\<lambda>x. state x \<noteq> UP) (map snd (interfaces down_device)) \<and>
   fst (handle_arp_request [(''type'', PyStr ''arp_request''), (''target_ip'', PyStr ''10.0.0.1''),
                            (''source_mac'', PyStr ''MAC_X'')] down_device) =
     Some [(''type'', PyStr ''arp_reply''), (''target_mac'', PyStr ''MAC_X''),
           (''source_ip'', PyStr ''10.0.0.1''), (''source_mac'', PyStr ''MAC_R1_eth1'')]"
proof -
  let ?m = "[(''type'', PyStr ''arp_request''), (''target_ip'', PyStr ''10.0.0.1''),
             (''source_mac'', PyStr ''MAC_X'')]"
  let ?i = "\<lparr>name = ''eth1'', ip_address = ''10.0.0.1'', subnet_mask = ''255.0.0.0'',
             bandwidth = 1000, mtu = 1500, state = ADMIN_DOWN, vlan = None, description = ''''\<rparr>"
  have a: "?i \<in> snd ` set (interfaces down_device)"
    by (simp add: interfaces_down_device)
  have b: "dict_get ?m ''target_ip'' = PyStr (ip_address ?i)"
    by (simp add: dict_get_def)
  from arp_reply_regardless_of_state [OF a b, of "\<lambda>k x. state x"]
  obtain j where j: "j \<in> snd ` set (interfaces down_device)" "ip_address j = ip_address ?i"
    "fst (handle_arp_request ?m down_device) =
       Some [(''type'', PyStr ''arp_reply''), (''target_mac'', dict_get ?m ''source_mac''),
             (''source_ip'', PyStr (ip_address ?i)),
             (''source_mac'', PyStr (''MAC_'' @ hostname down_device @ ''_'' @ name j))]"
    by blast
  from j(1,2) have "name j = ''eth1''"
    by (auto simp: interfaces_down_device)
  with j(3) show ?thesis
    by (simp add: interfaces_down_device hostname_down_device dict_get_def)
qed

subsection \<open>Reachability\<close>

lemma can_reach_loop_iff:
  "can_reach_loop xs t \<longleftrightarrow> (\<exists>i \<in> set xs. state i = UP \<and> covers i t)"
  by (induction xs) (auto simp: covers_def interface_network_def split: option.splits)

lemma split_on_absent: "c \<notin> set s \<Longrightarrow> split_on c s = [s]"
  by (induction s) auto

lemma IPv4Network_address:
  "CHR ''/'' \<notin> set s \<Longrightarrow>
   IPv4Network s strict = map_option (\<lambda>a. \<lparr>network_address = a, prefixlen = 32\<rparr>) (ip_int_from_string s)"
  by (simp add: IPv4Network_def split_on_absent split: option.split)

lemma addresses_nonempty: "network_address n \<le> broadcast_address n"
  by (simp add: broadcast_address_def)

lemma subnet_of_iff_subset: "subnet_of a b \<longleftrightarrow> addresses a \<subseteq> addresses b"
  using addresses_nonempty [of a] by (auto simp: subnet_of_def addresses_def)

lemma addresses_singleton: "addresses \<lparr>network_address = a, prefixlen = 32\<rparr> = {a}"
  by (simp add: addresses_def broadcast_address_def)

lemma covers_address:
  "CHR ''/'' \<notin> set ip \<Longrightarrow>
   covers i (PyStr ip) \<longleftrightarrow>
     (\<exists>n a. interface_network i = Some n \<and> ip_int_from_string ip = Some a \<and> {a} \<subseteq> addresses n)"
  by (auto simp: covers_def IPv4Network_address subnet_of_iff_subset addresses_singleton
      split: option.splits)

lemma can_reach_loop_filter:
  "can_reach_loop (filter (\<lambda>i. state i = UP) xs) t = can_reach_loop xs t"
  by (auto simp: can_reach_loop_iff)

text \<open>
  Claim C6. For a string with no slash in it (an address, not a network in prefix
  notation), \<^verbatim>\<open>_can_reach_ip\<close> is true exactly when some interface of the device is
  \<^verbatim>\<open>UP\<close>, its address and mask give a network, the string is an address, and the
  addresses of the network are a superset of that one address. An interface that is not
  \<^verbatim>\<open>UP\<close> never contributes: without the interfaces that are down the answer is the same.
\<close>

theorem can_reach_ip_iff:
  "CHR ''/'' \<notin> set ip \<Longrightarrow>
   (can_reach_ip d (PyStr ip) \<longleftrightarrow>
      (\<exists>i \<in> snd ` set (interfaces d). state i = UP \<and>
         (\<exists>n a. interface_network i = Some n \<and> ip_int_from_string ip = Some a \<and>
                {a} \<subseteq> addresses n))) \<and>
   can_reach_ip (d\<lparr>interfaces := filter (\<lambda>(k, i). state i = UP) (interfaces d)\<rparr>) (PyStr ip) =
     can_reach_ip d (PyStr ip)"
proof -
  assume ip: "CHR ''/'' \<notin> set ip"
  have iff: "can_reach_ip d (PyStr ip) \<longleftrightarrow>
      (\<exists>i \<in> snd ` set (interfaces d). state i = UP \<and>
         (\<exists>n a. interface_network i = Some n \<and> ip_int_from_string ip = Some a \<and>
                {a} \<subseteq> addresses n))"
    by (simp add: can_reach_ip_def can_reach_loop_iff covers_address [OF ip])
  have "map snd (filter (\<lambda>(k, i). state i = UP) xs) = filter (\<lambda>i. state i = UP) (map snd xs)"
    for xs :: "(string \<times> Interface) list"
    by (induction xs) auto
  then have up: "can_reach_ip (d\<lparr>interfaces := filter (\<lambda>(k, i). state i = UP) (interfaces d)\<rparr>) (PyStr ip) =
     can_reach_ip d (PyStr ip)"
    by (simp add: can_reach_ip_def can_reach_loop_filter)
  from iff up show ?thesis by blast
qed

theorem can_reach_ip_iff_witness:
  "CHR ''/'' \<notin> set ''192.168.1.77'' \<and>
   can_reach_ip sample_device (PyStr ''192.168.1.77'') \<and>
   (\<exists>i \<in> snd ` set (interfaces sample_device). state i = UP \<and>
      (\<exists>n a. interface_network i = Some n \<and> ip_int_from_string ''192.168.1.77'' = Some a \<and>
             {a} \<subseteq> addresses n)) \<and>
   \<not> can_reach_ip sample_device (PyStr ''172.16.0.9'') \<and>
   \<not> can_reach_ip (set_interface_state ''eth0'' ADMIN_DOWN sample_device) (PyStr ''192.168.1.77'')"
proof -
  have h: "CHR ''/'' \<notin> set ''192.168.1.77''"
    by simp
  have r: "can_reach_ip sample_device (PyStr ''192.168.1.77'')"
    by code_simp
  have n: "\<not> can_reach_ip sample_device (PyStr ''172.16.0.9'')"
    by code_simp
  have a: "\<not> can_reach_ip (set_interface_state ''eth0'' ADMIN_DOWN sample_device) (PyStr ''192.168.1.77'')"
    by code_simp
  from can_reach_ip_iff [OF h, of sample_device] r
  have "\<exists>i \<in> snd ` set (interfaces sample_device). state i = UP \<and>
      (\<exists>n a. interface_network i = Some n \<and> ip_int_from_string ''192.168.1.77'' = Some a \<and>
             {a} \<subseteq> addresses n)"
    by blast
  with h r n a show ?thesis by blast
qed

subsection \<open>Setting the state of an interface\<close>

lemma covers_state: "covers (i\<lparr>state := st\<rparr>) t = covers i t"
  by (simp add: covers_def interface_network_def)

lemma map_entry_distinct:
  "distinct (map fst al) \<Longrightarrow>
   AList.map_entry n f al = map (\<lambda>(k, v). (k, if k = n then f v else v)) al"
proof (induction al)
  case Nil
  then show ?case by simp
next
  case (Cons p al)
  have "map (\<lambda>(k, v). (k, if k = n then f v else v)) al = al" if "n \<notin> fst ` set al"
    using that by (intro map_idI) force
  with Cons show ?case
    by (cases p) auto
qed

lemma interfaces_set_interface_state:
  "distinct (map fst (interfaces d)) \<Longrightarrow>
   interfaces (set_interface_state n st d) =
     map (\<lambda>(k, i). (k, if k = n then i\<lparr>state := st\<rparr> else i)) (interfaces d)"
proof (cases "n \<in> set (map fst (interfaces d))")
  case True
  assume "distinct (map fst (interfaces d))"
  with True show ?thesis
    by (simp add: set_interface_state_def emit_def map_entry_distinct)
next
  case False
  then have "map (\<lambda>(k, i). (k, if k = n then i\<lparr>state := st\<rparr> else i)) (interfaces d) = interfaces d"
    by (intro map_idI) force
  with False show ?thesis
    by (simp add: set_interface_state_def)
qed

lemma keys_set_interface_state:
  "map fst (interfaces (set_interface_state n st d)) = map fst (interfaces d)"
proof -
  have "map fst (AList.map_entry n f al) = map fst al" for f :: "Interface \<Rightarrow> Interface" and al
    by (induction al) auto
  then show ?thesis
    by (simp add: set_interface_state_def emit_def)
qed

lemma state_after_set_interface_state:
  "n \<in> fst ` set (interfaces d) \<Longrightarrow>
   map_option state (map_of (interfaces (set_interface_state n st d)) n) = Some st"
proof -
  assume n: "n \<in> fst ` set (interfaces d)"
  then obtain v where "map_of (interfaces d) n = Some v"
    by (metis domD dom_map_of_conv_image_fst)
  with n show ?thesis
    by (simp add: set_interface_state_def emit_def map_of_map_entry)
qed

lemma bex_set_map: "(\<exists>i \<in> set (map h xs). Q i) \<longleftrightarrow> (\<exists>p \<in> set xs. Q (h p))"
  by auto

lemma values_set_interface_state:
  "distinct (map fst (interfaces d)) \<Longrightarrow>
   map snd (interfaces (set_interface_state n st d)) =
     map (\<lambda>p. if fst p = n then (snd p)\<lparr>state := st\<rparr> else snd p) (interfaces d)"
  by (simp add: interfaces_set_interface_state case_prod_beta comp_def)

lemma can_reach_after_set_interface_state:
  "distinct (map fst (interfaces d)) \<Longrightarrow>
   can_reach_ip (set_interface_state n st d) t \<longleftrightarrow>
     (\<exists>p \<in> set (interfaces d). (if fst p = n then st else state (snd p)) = UP \<and> covers (snd p) t)"
proof -
  assume dist: "distinct (map fst (interfaces d))"
  let ?h = "\<lambda>p. if fst p = n then (snd p)\<lparr>state := st\<rparr> else snd p"
  have "can_reach_ip (set_interface_state n st d) t \<longleftrightarrow>
     (\<exists>i \<in> set (map ?h (interfaces d)). state i = UP \<and> covers i t)"
    by (simp only: can_reach_ip_def can_reach_loop_iff values_set_interface_state [OF dist])
  also have "\<dots> \<longleftrightarrow> (\<exists>p \<in> set (interfaces d). state (?h p) = UP \<and> covers (?h p) t)"
    by (rule bex_set_map)
  also have "\<dots> \<longleftrightarrow> (\<exists>p \<in> set (interfaces d). (if fst p = n then st else state (snd p)) = UP \<and> covers (snd p) t)"
    by (intro bex_cong refl) (simp add: covers_state)
  finally show ?thesis .
qed

text \<open>
  Claim C7. \<^verbatim>\<open>set_interface_state\<close> with a name that is no key of the interface
  dictionary returns the device as it is. For a key, the state stored under it is
  \<^verbatim>\<open>DOWN\<close> after setting it down and \<^verbatim>\<open>UP\<close> after setting it up again. Each state is
  seen by \<^verbatim>\<open>_can_reach_ip\<close> (the keys of a dictionary are distinct): after setting it
  down the interface does not count, whatever it covers, and after setting it up again
  it counts whenever it covers the target.
\<close>

theorem set_interface_state_observable:
  "(n \<notin> fst ` set (interfaces d) \<longrightarrow> set_interface_state n st d = d) \<and>
   (n \<in> fst ` set (interfaces d) \<longrightarrow>
      map_option state (map_of (interfaces (set_interface_state n DOWN d)) n) = Some DOWN \<and>
      map_option state
        (map_of (interfaces (set_interface_state n UP (set_interface_state n DOWN d))) n) = Some UP) \<and>
   (distinct (map fst (interfaces d)) \<longrightarrow>
      (can_reach_ip (set_interface_state n DOWN d) t \<longleftrightarrow>
         (\<exists>(k, i) \<in> set (interfaces d). k \<noteq> n \<and> state i = UP \<and> covers i t)) \<and>
      (can_reach_ip (set_interface_state n UP (set_interface_state n DOWN d)) t \<longleftrightarrow>
         (\<exists>(k, i) \<in> set (interfaces d). (k = n \<or> state i = UP) \<and> covers i t)))"
proof -
  have unknown: "set_interface_state n st d = d" if "n \<notin> fst ` set (interfaces d)"
    using that by (simp add: set_interface_state_def)
  have down: "map_option state (map_of (interfaces (set_interface_state n DOWN d)) n) = Some DOWN"
    if "n \<in> fst ` set (interfaces d)"
    using that by (rule state_after_set_interface_state)
  have up: "map_option state
        (map_of (interfaces (set_interface_state n UP (set_interface_state n DOWN d))) n) = Some UP"
    if "n \<in> fst ` set (interfaces d)"
  proof -
    from that have "n \<in> fst ` set (interfaces (set_interface_state n DOWN d))"
      using keys_set_interface_state [of n DOWN d] by (metis list.set_map)
    then show ?thesis by (rule state_after_set_interface_state)
  qed
  have seen_down: "can_reach_ip (set_interface_state n DOWN d) t \<longleftrightarrow>
         (\<exists>(k, i) \<in> set (interfaces d). k \<noteq> n \<and> state i = UP \<and> covers i t)"
    if "distinct (map fst (interfaces d))"
  proof -
    have "can_reach_ip (set_interface_state n DOWN d) t \<longleftrightarrow>
      (\<exists>p \<in> set (interfaces d). (if fst p = n then DOWN else state (snd p)) = UP \<and> covers (snd p) t)"
      using that by (rule can_reach_after_set_interface_state)
    also have "\<dots> \<longleftrightarrow> (\<exists>p \<in> set (interfaces d). fst p \<noteq> n \<and> state (snd p) = UP \<and> covers (snd p) t)"
      by (intro bex_cong refl) simp
    finally show ?thesis
      by (simp add: case_prod_beta)
  qed
  have seen_up: "can_reach_ip (set_interface_state n UP (set_interface_state n DOWN d)) t \<longleftrightarrow>
         (\<exists>(k, i) \<in> set (interfaces d). (k = n \<or> state i = UP) \<and> covers i t)"
    if dist: "distinct (map fst (interfaces d))"
  proof -
    let ?g = "\<lambda>p. (fst p, if fst p = n then (snd p)\<lparr>state := DOWN\<rparr> else snd p)"
    from dist have "distinct (map fst (interfaces (set_interface_state n DOWN d)))"
      by (simp add: keys_set_interface_state)
    then have "can_reach_ip (set_interface_state n UP (set_interface_state n DOWN d)) t \<longleftrightarrow>
      (\<exists>p \<in> set (interfaces (set_interface_state n DOWN d)).
         (if fst p = n then UP else state (snd p)) = UP \<and> covers (snd p) t)"
      by (rule can_reach_after_set_interface_state)
    also have "\<dots> \<longleftrightarrow> (\<exists>p \<in> set (interfaces d).
         (if fst (?g p) = n then UP else state (snd (?g p))) = UP \<and> covers (snd (?g p)) t)"
      unfolding interfaces_set_interface_state [OF dist] case_prod_beta by (rule bex_set_map)
    also have "\<dots> \<longleftrightarrow> (\<exists>p \<in> set (interfaces d). (fst p = n \<or> state (snd p) = UP) \<and> covers (snd p) t)"
      by (intro bex_cong refl) (simp add: covers_state)
    finally show ?thesis
      by (simp add: case_prod_beta)
  qed
  from unknown down up seen_down seen_up show ?thesis by blast
qed

theorem set_interface_state_observable_witness:
  "''eth0'' \<in> fst ` set (interfaces sample_device) \<and>
   ''wlan9'' \<notin> fst ` set (interfaces sample_device) \<and>
   distinct (map fst (interfaces sample_device)) \<and>
   set_interface_state ''wlan9'' DOWN sample_device = sample_device \<and>
   map_option state (map_of (interfaces (set_interface_state ''eth0'' UP
      (set_interface_state ''eth0'' DOWN sample_device))) ''eth0'') = Some UP \<and>
   can_reach_ip sample_device (PyStr ''192.168.1.77'') \<and>
   \<not> can_reach_ip (set_interface_state ''eth0'' DOWN sample_device) (PyStr ''192.168.1.77'') \<and>
   can_reach_ip (set_interface_state ''eth0'' UP (set_interface_state ''eth0'' DOWN sample_device))
     (PyStr ''192.168.1.77'')"
proof -
  have i: "interfaces sample_device =
     [(''eth0'', \<lparr>name = ''eth0'', ip_address = ''192.168.1.1'', subnet_mask = ''255.255.255.0'',
                 bandwidth = 100, mtu = 1500, state = UP, vlan = None, description = ''uplink''\<rparr>),
      (''eth1'', \<lparr>name = ''eth1'', ip_address = ''10.0.0.1'', subnet_mask = ''255.0.0.0'',
                 bandwidth = 1000, mtu = 1500, state = UP, vlan = None, description = ''''\<rparr>)]"
    by (simp add: sample_device_def NetworkDevice_init_def initialize_interfaces_def interface_of_config_def)
  have known: "''eth0'' \<in> fst ` set (interfaces sample_device)"
    and unknown: "''wlan9'' \<notin> fst ` set (interfaces sample_device)"
    and dist: "distinct (map fst (interfaces sample_device))"
    by (simp_all add: i)
  have c0: "can_reach_ip sample_device (PyStr ''192.168.1.77'')"
    by code_simp
  have c1: "\<not> can_reach_ip (set_interface_state ''eth0'' DOWN sample_device) (PyStr ''192.168.1.77'')"
    by code_simp
  have c2: "can_reach_ip (set_interface_state ''eth0'' UP (set_interface_state ''eth0'' DOWN sample_device))
     (PyStr ''192.168.1.77'')"
    by code_simp
  from set_interface_state_observable [of "''wlan9''" sample_device DOWN] unknown
  have same: "set_interface_state ''wlan9'' DOWN sample_device = sample_device"
    by blast
  from set_interface_state_observable [of "''eth0''" sample_device] known
  have up: "map_option state (map_of (interfaces (set_interface_state ''eth0'' UP
      (set_interface_state ''eth0'' DOWN sample_device))) ''eth0'') = Some UP"
    by blast
  from known unknown dist same up c0 c1 c2 show ?thesis by blast
qed

lemma distinct_initialize_interfaces: "distinct (map fst (initialize_interfaces cfg))"
proof -
  have "distinct (map fst (foldl (\<lambda>d c. AList.update (cfg_name c) (interface_of_config c) d) al cfg))"
    if "distinct (map fst al)" for al
    using that by (induction cfg arbitrary: al) (simp_all add: distinct_update)
  then show ?thesis
    by (simp add: initialize_interfaces_def)
qed

section \<open>Properties of the simulator\<close>

subsection \<open>The sample simulator\<close>

lemma keys_sample: "map fst (devices sample_simulator) = [''A'', ''B'', ''C'']"
  by code_simp

subsection \<open>Querying the event log\<close>

lemma most_recent_suffix: "\<exists>ys. xs = ys @ most_recent n xs \<and> length (most_recent n xs) = min n (length xs)"
  unfolding most_recent_def by (intro exI [of _ "take (length xs - n) xs"]) auto

text \<open>
  Claim C8 as stated fails for the limit 0: the query then returns every matching event,
  not the most recent zero of them.
\<close>

theorem get_simulation_events_limit_zero_counterexample:
  "get_simulation_events None (Some 0) sample_log \<noteq> most_recent 0 (matching_events None (events sample_log))"
  by (simp add: get_simulation_events_def truthy_str_def truthy_int_def sample_log_def
      most_recent_def matching_events_def)

lemma filtered_matching:
  "(if truthy_str kind then filter (\<lambda>e. event_type e = the kind) evs else evs) = matching_events kind evs"
  by (cases kind) (simp_all add: truthy_str_def matching_events_def)

lemma slice_from_positive: "0 < n \<Longrightarrow> slice_from (- n) xs = most_recent (nat n) xs"
proof -
  assume n: "0 < n"
  then have "nat (int (length xs) + - n) = length xs - nat n"
    by arith
  with n show ?thesis
    by (simp add: slice_from_def most_recent_def)
qed

lemma slice_from_negative: "n < 0 \<Longrightarrow> slice_from (- n) xs = drop (nat (- n)) xs"
  by (simp add: slice_from_def)

lemma get_simulation_events_unfold:
  "get_simulation_events kind limit s =
     (if truthy_int limit then slice_from (- the limit) (matching_events kind (events s))
      else matching_events kind (events s))"
  by (simp add: get_simulation_events_def Let_def filtered_matching)

text \<open>
  Claim C8, amended. The query returns the matching events in insertion order: all of
  them when the limit is absent or 0, the most recent \<open>n\<close> of them for a positive limit
  \<open>n\<close>, and all but the \<open>-n\<close> oldest for a negative limit \<open>n\<close>.
\<close>

theorem get_simulation_events_query:
  "(limit = None \<or> limit = Some 0 \<longrightarrow>
      get_simulation_events kind limit s = matching_events kind (events s)) \<and>
   (\<forall>n. limit = Some n \<and> 0 < n \<longrightarrow>
      get_simulation_events kind limit s = most_recent (nat n) (matching_events kind (events s))) \<and>
   (\<forall>n. limit = Some n \<and> n < 0 \<longrightarrow>
      get_simulation_events kind limit s = drop (nat (- n)) (matching_events kind (events s)))"
proof (intro conjI allI impI)
  assume "limit = None \<or> limit = Some 0"
  then have "\<not> truthy_int limit"
    by (auto simp: truthy_int_def)
  then show "get_simulation_events kind limit s = matching_events kind (events s)"
    by (simp add: get_simulation_events_unfold)
next
  fix n assume "limit = Some n \<and> 0 < n"
  then show "get_simulation_events kind limit s = most_recent (nat n) (matching_events kind (events s))"
    by (simp add: get_simulation_events_unfold truthy_int_def slice_from_positive)
next
  fix n assume "limit = Some n \<and> n < 0"
  then show "get_simulation_events kind limit s = drop (nat (- n)) (matching_events kind (events s))"
    by (simp add: get_simulation_events_unfold truthy_int_def slice_from_negative)
qed

theorem get_simulation_events_query_witness:
  "get_simulation_events (Some ''packet_sent'') (Some 1) sample_log = [sample_event 3 ''packet_sent''] \<and>
   get_simulation_events (Some ''packet_sent'') None sample_log =
     [sample_event 1 ''packet_sent'', sample_event 3 ''packet_sent''] \<and>
   get_simulation_events None (Some 2) sample_log =
     [sample_event 2 ''fault_injected'', sample_event 3 ''packet_sent''] \<and>
   get_simulation_events (Some '''') (Some 0) sample_log = events sample_log"
proof -
  have e: "events sample_log = [sample_event 1 ''packet_sent'', sample_event 2 ''fault_injected'',
                                 sample_event 3 ''packet_sent'']"
    by (simp add: sample_log_def)
  have t: "event_type (sample_event t k) = k" for t k
    by (simp add: sample_event_def)
  from get_simulation_events_query [of "Some 1" "Some ''packet_sent''" sample_log]
  have a: "get_simulation_events (Some ''packet_sent'') (Some 1) sample_log = [sample_event 3 ''packet_sent'']"
    by (simp add: e t matching_events_def most_recent_def)
  from get_simulation_events_query [of None "Some ''packet_sent''" sample_log]
  have b: "get_simulation_events (Some ''packet_sent'') None sample_log =
     [sample_event 1 ''packet_sent'', sample_event 3 ''packet_sent'']"
    by (simp add: e t matching_events_def)
  from get_simulation_events_query [of "Some 2" None sample_log]
  have c: "get_simulation_events None (Some 2) sample_log =
     [sample_event 2 ''fault_injected'', sample_event 3 ''packet_sent'']"
    by (simp add: e matching_events_def most_recent_def)
  from get_simulation_events_query [of "Some 0" "Some ''''" sample_log]
  have d: "get_simulation_events (Some '''') (Some 0) sample_log = events sample_log"
    by (simp add: matching_events_def)
  from a b c d show ?thesis by blast
qed

subsection \<open>What applying and reverting a fault leave alone\<close>

lemma foldl_invariant:
  "P s \<Longrightarrow> (\<And>s x. P s \<Longrightarrow> P (f s x)) \<Longrightarrow> P (foldl f s xs)"
  by (induction xs arbitrary: s) auto

lemma keys_map_entry: "map fst (AList.map_entry k f al) = map fst al"
  by (induction al) auto

lemma same_faults_refl: "same_faults s s"
  by (simp add: same_faults_def)

lemma same_faults_on_device: "same_faults s s' \<Longrightarrow> same_faults s (on_device h f s')"
  by (simp add: same_faults_def on_device_def keys_map_entry)

lemma same_faults_sim_emit: "same_faults s s' \<Longrightarrow> same_faults s (sim_emit r s')"
  by (simp add: same_faults_def sim_emit_def)

lemma same_faults_unlink: "same_faults s s' \<Longrightarrow> same_faults s (unlink dev s' n)"
  by (simp add: unlink_def Let_def same_faults_on_device)

lemma same_faults_relink: "same_faults s s' \<Longrightarrow> same_faults s (relink dev s' n)"
  by (simp add: relink_def Let_def same_faults_on_device)

lemma same_faults_unlink_loop: "same_faults s (foldl (unlink dev) s ns)"
  by (rule foldl_invariant) (simp_all add: same_faults_refl same_faults_unlink)

lemma same_faults_relink_loop: "same_faults s (foldl (relink dev) s ns)"
  by (rule foldl_invariant) (simp_all add: same_faults_refl same_faults_relink)

lemma same_faults_apply_fault: "apply_fault fault s = Inr s' \<Longrightarrow> same_faults s s'"
  unfolding apply_fault_def
  by (auto simp: same_faults_refl same_faults_on_device same_faults_sim_emit same_faults_unlink_loop same_faults_relink_loop
      split: option.splits if_splits)

lemma same_faults_remove_fault: "remove_fault fault s = Inr s' \<Longrightarrow> same_faults s s'"
  unfolding remove_fault_def
  by (auto simp: same_faults_refl same_faults_on_device same_faults_sim_emit same_faults_unlink_loop same_faults_relink_loop
      split: option.splits if_splits)

lemma known_device: "dev \<in> fst ` set al \<Longrightarrow> \<exists>d. map_of al dev = Some d"
  by (metis domD dom_map_of_conv_image_fst)

lemma apply_fault_known:
  "target_device fault \<in> fst ` set (devices s) \<Longrightarrow> \<exists>s'. apply_fault fault s = Inr s'"
  by (auto simp: apply_fault_def dest!: known_device)

lemma remove_fault_known:
  "target_device fault \<in> fst ` set (devices s) \<Longrightarrow> \<exists>s'. remove_fault fault s = Inr s'"
  by (auto simp: remove_fault_def dest!: known_device)

lemma inject_fault_known:
  assumes "dev \<in> fst ` set (devices s)"
  shows "\<exists>s'. inject_fault ft dev intf params dur now now' s = Inr s' \<and>
           active_faults s' = active_faults s @ [make_fault ft dev intf params dur now] \<and>
           fault_history s' = fault_history s @ [make_fault ft dev intf params dur now] \<and>
           map fst (devices s') = map fst (devices s)"
proof -
  let ?f = "make_fault ft dev intf params dur now"
  let ?s1 = "s\<lparr>active_faults := active_faults s @ [?f], fault_history := fault_history s @ [?f]\<rparr>"
  from assms have "target_device ?f \<in> fst ` set (devices ?s1)"
    by (simp add: make_fault_def)
  then obtain s2 where s2: "apply_fault ?f ?s1 = Inr s2"
    using apply_fault_known by blast
  then have "same_faults ?s1 s2"
    by (rule same_faults_apply_fault)
  with s2 assms show ?thesis
    by (simp add: inject_fault_def Let_def same_faults_def record_event_def sim_emit_def)
qed

subsection \<open>The rounds of the expiry loop\<close>

lemma revert_expired_result:
  "revert_expired now fs s rm = (e, s1, rm1) \<Longrightarrow>
   same_faults s s1 \<and> set rm1 \<subseteq> set rm \<union> {f \<in> set fs. expired now f}"
proof (induction fs arbitrary: s rm)
  case Nil
  then show ?case by (simp add: same_faults_refl)
next
  case (Cons f fs)
  show ?case
  proof (cases "expired now f")
    case False
    with Cons.prems have "revert_expired now fs s rm = (e, s1, rm1)"
      by simp
    from Cons.IH [OF this] show ?thesis by auto
  next
    case True
    show ?thesis
    proof (cases "remove_fault f s")
      case (Inl x)
      with True Cons.prems show ?thesis
        by (auto simp: same_faults_refl)
    next
      case (Inr s2)
      with True Cons.prems have "revert_expired now fs s2 (rm @ [f]) = (e, s1, rm1)"
        by simp
      from Cons.IH [OF this] same_faults_remove_fault [OF Inr] True show ?thesis
        by (auto simp: same_faults_def)
    qed
  qed
qed

lemma remove_faults_keeps:
  "x \<in> set active \<Longrightarrow> x \<notin> set rm \<Longrightarrow> x \<in> set (snd (remove_faults rm active))"
  by (induction rm arbitrary: active) auto

lemma remove_faults_subset: "set (snd (remove_faults rm active)) \<subseteq> set active"
proof (induction rm arbitrary: active)
  case Nil
  then show ?case by simp
next
  case (Cons f rm)
  have "set (remove1 f active) \<subseteq> set active"
    by (rule set_remove1_subset)
  with Cons [of "remove1 f active"] show ?case
    by auto
qed

lemma remove_faults_filter:
  "list_all (\<lambda>y. \<not> P y) ys \<Longrightarrow>
   remove_faults (filter P xs) (ys @ xs) = (None, ys @ filter (\<lambda>x. \<not> P x) xs)"
proof (induction xs arbitrary: ys)
  case Nil
  then show ?case by simp
next
  case (Cons x xs)
  show ?case
  proof (cases "P x")
    case True
    with Cons.prems have "x \<notin> set ys"
      by (auto simp: list_all_iff)
    then have "remove1 x (ys @ x # xs) = ys @ xs"
      by (simp add: remove1_append)
    with True Cons.IH [OF Cons.prems] show ?thesis
      by simp
  next
    case False
    with Cons.prems have "list_all (\<lambda>y. \<not> P y) (ys @ [x])"
      by simp
    from Cons.IH [OF this] False show ?thesis
      by simp
  qed
qed

lemma tick_keeps_unexpired:
  assumes "f \<in> set (active_faults s)" and "\<not> expired now f"
  shows "f \<in> set (active_faults (process_faults_tick now s))"
proof -
  obtain e s1 rm where r: "revert_expired now (active_faults s) s [] = (e, s1, rm)"
    by (metis prod_cases3)
  from revert_expired_result [OF r] assms
  have a: "active_faults s1 = active_faults s" and n: "f \<notin> set rm"
    by (auto simp: same_faults_def)
  from assms a n have "f \<in> set (snd (remove_faults rm (active_faults s1)))"
    by (simp add: remove_faults_keeps)
  with r a assms show ?thesis
    by (cases e; cases "remove_faults rm (active_faults s1)")
       (auto simp: process_faults_tick_def sim_emit_def split: option.splits)
qed

lemma process_faults_keeps_unexpired:
  "f \<in> set (active_faults s) \<Longrightarrow> \<forall>t \<in> set ts. \<not> expired t f \<Longrightarrow>
   f \<in> set (active_faults (process_faults ts s))"
proof (induction ts arbitrary: s)
  case Nil
  then show ?case by (simp add: process_faults_def)
next
  case (Cons t ts)
  from Cons.prems have "f \<in> set (active_faults (process_faults_tick t s))"
    by (simp add: tick_keeps_unexpired)
  from Cons.IH [OF this] Cons.prems show ?case
    by (simp add: process_faults_def)
qed

lemma never_expired_make_fault:
  "dur = None \<or> dur = Some 0 \<Longrightarrow> \<not> expired t (make_fault ft dev intf params dur t0)"
  by (auto simp: expired_def make_fault_def truthy_float_def)

lemma active_faults_init: "active_faults (NetworkSimulator_init t) = []"
  by (simp add: NetworkSimulator_init_def initialize_devices_def Let_def sim_emit_def)

lemma targets_known_init: "targets_known (NetworkSimulator_init t)"
  by (simp add: targets_known_def active_faults_init)

lemma targets_known_inject_fault:
  assumes "inject_fault ft dev intf params dur now now' s = Inr s'" and "targets_known s"
  shows "targets_known s'"
proof (cases "dev \<in> fst ` set (devices s)")
  case True
  from inject_fault_known [OF True, of ft intf params dur now now'] assms(1)
  have "active_faults s' = active_faults s @ [make_fault ft dev intf params dur now]"
    and "map fst (devices s') = map fst (devices s)"
    by auto
  moreover have "target_device (make_fault ft dev intf params dur now) \<in> set (map fst (devices s))"
    using True by (simp add: make_fault_def)
  ultimately show ?thesis
    using assms(2) by (simp add: targets_known_def)
next
  case False
  with assms show ?thesis
    by (auto simp: inject_fault_def sim_emit_def targets_known_def)
qed

lemma known_sample: "''A'' \<in> fst ` set (devices sample_simulator)"
proof -
  have "set (map fst (devices sample_simulator)) = {''A'', ''B'', ''C''}"
    by (simp add: keys_sample)
  then show ?thesis by simp
qed

subsection \<open>The loop as it runs\<close>

lemma same_running_refl: "same_running s s"
  by (simp add: same_running_def)

lemma same_running_on_device: "same_running s s' \<Longrightarrow> same_running s (on_device h f s')"
  by (simp add: same_running_def on_device_def)

lemma same_running_sim_emit: "same_running s s' \<Longrightarrow> same_running s (sim_emit r s')"
  by (simp add: same_running_def sim_emit_def)

lemma same_running_unlink_loop: "same_running s (foldl (unlink dev) s ns)"
  by (rule foldl_invariant)
     (simp_all add: same_running_refl unlink_def Let_def same_running_on_device)

lemma same_running_relink_loop: "same_running s (foldl (relink dev) s ns)"
  by (rule foldl_invariant)
     (simp_all add: same_running_refl relink_def Let_def same_running_on_device)

lemma same_running_apply_fault: "apply_fault fault s = Inr s' \<Longrightarrow> same_running s s'"
  unfolding apply_fault_def
  by (auto simp: same_running_refl same_running_on_device same_running_sim_emit
        same_running_unlink_loop split: option.splits if_splits)

lemma same_running_remove_fault: "remove_fault fault s = Inr s' \<Longrightarrow> same_running s s'"
  unfolding remove_fault_def
  by (auto simp: same_running_refl same_running_on_device same_running_sim_emit
        same_running_relink_loop split: option.splits if_splits)

lemma running_inject_fault:
  "inject_fault ft dev intf params dur now now' s = Inr s' \<Longrightarrow>
   simulation_running s' = simulation_running s"
proof (cases "dev \<in> set (map fst (devices s))")
  case False
  assume "inject_fault ft dev intf params dur now now' s = Inr s'"
  with False show ?thesis
    by (auto simp: inject_fault_def sim_emit_def)
next
  case True
  assume i: "inject_fault ft dev intf params dur now now' s = Inr s'"
  let ?f = "make_fault ft dev intf params dur now"
  let ?s1 = "s\<lparr>active_faults := active_faults s @ [?f], fault_history := fault_history s @ [?f]\<rparr>"
  from i True obtain s2 where s2: "apply_fault ?f ?s1 = Inr s2"
    by (auto simp: inject_fault_def Let_def split: sum.splits)
  from same_running_apply_fault [OF s2] have "simulation_running s2 = simulation_running s"
    by (simp add: same_running_def)
  with i True s2 show ?thesis
    by (auto simp: inject_fault_def Let_def record_event_def sim_emit_def)
qed

lemma revert_expired_float_result:
  "revert_expired_float sub now fs s rm = (e, s1, rm1) \<Longrightarrow>
   same_faults s s1 \<and> same_running s s1 \<and> set rm1 \<subseteq> set rm \<union> {f \<in> set fs. expired_float sub now f}"
proof (induction fs arbitrary: s rm)
  case Nil
  then show ?case by (simp add: same_faults_refl same_running_refl)
next
  case (Cons f fs)
  show ?case
  proof (cases "expired_float sub now f")
    case False
    with Cons.prems have "revert_expired_float sub now fs s rm = (e, s1, rm1)"
      by simp
    from Cons.IH [OF this] show ?thesis by auto
  next
    case True
    show ?thesis
    proof (cases "remove_fault f s")
      case (Inl x)
      with True Cons.prems show ?thesis
        by (auto simp: same_faults_refl same_running_refl)
    next
      case (Inr s2)
      with True Cons.prems have "revert_expired_float sub now fs s2 (rm @ [f]) = (e, s1, rm1)"
        by simp
      from Cons.IH [OF this] same_faults_remove_fault [OF Inr] same_running_remove_fault [OF Inr] True
      show ?thesis
        by (auto simp: same_faults_def same_running_def)
    qed
  qed
qed

lemma revert_expired_float_known:
  "list_all (\<lambda>f. target_device f \<in> set (map fst (devices s))) fs \<Longrightarrow>
   \<exists>s1. revert_expired_float sub now fs s rm = (None, s1, rm @ filter (expired_float sub now) fs)"
proof (induction fs arbitrary: s rm)
  case Nil
  then show ?case by simp
next
  case (Cons f fs)
  show ?case
  proof (cases "expired_float sub now f")
    case False
    with Cons show ?thesis by simp
  next
    case True
    from Cons.prems have "target_device f \<in> fst ` set (devices s)"
      by simp
    then obtain s2 where s2: "remove_fault f s = Inr s2"
      using remove_fault_known by blast
    then have "map fst (devices s2) = map fst (devices s)"
      using same_faults_remove_fault by (auto simp: same_faults_def)
    with Cons.prems have "list_all (\<lambda>f. target_device f \<in> set (map fst (devices s2))) fs"
      by simp
    from Cons.IH [OF this, of "rm @ [f]"] True s2 show ?thesis
      by simp
  qed
qed

lemma round_running: "simulation_running (process_faults_round sub now s) = simulation_running s"
proof -
  obtain e s1 rm where r: "revert_expired_float sub now (active_faults s) s [] = (e, s1, rm)"
    by (metis prod_cases3)
  from revert_expired_float_result [OF r] have "simulation_running s1 = simulation_running s"
    by (simp add: same_running_def)
  with r show ?thesis
    by (cases e; cases "remove_faults rm (active_faults s1)")
       (auto simp: process_faults_round_def sim_emit_def split: option.splits)
qed

lemma round_keeps_unexpired:
  assumes "f \<in> set (active_faults s)" and "\<not> expired_float sub now f"
  shows "f \<in> set (active_faults (process_faults_round sub now s))"
proof -
  obtain e s1 rm where r: "revert_expired_float sub now (active_faults s) s [] = (e, s1, rm)"
    by (metis prod_cases3)
  from revert_expired_float_result [OF r] assms
  have a: "active_faults s1 = active_faults s" and n: "f \<notin> set rm"
    by (auto simp: same_faults_def)
  from assms a n have "f \<in> set (snd (remove_faults rm (active_faults s1)))"
    by (simp add: remove_faults_keeps)
  with r a assms show ?thesis
    by (cases e; cases "remove_faults rm (active_faults s1)")
       (auto simp: process_faults_round_def sim_emit_def split: option.splits)
qed

lemma round_only_removes:
  "set (active_faults (process_faults_round sub now s)) \<subseteq> set (active_faults s)"
proof -
  obtain e s1 rm where r: "revert_expired_float sub now (active_faults s) s [] = (e, s1, rm)"
    by (metis prod_cases3)
  from revert_expired_float_result [OF r]
  have a: "active_faults s1 = active_faults s"
    by (auto simp: same_faults_def)
  have "set (snd (remove_faults rm (active_faults s1))) \<subseteq> set (active_faults s)"
    using remove_faults_subset [of rm "active_faults s1"] a by simp
  with r a show ?thesis
    by (cases e; cases "remove_faults rm (active_faults s1)")
       (auto simp: process_faults_round_def sim_emit_def split: option.splits)
qed

lemma round_removes_expired:
  assumes "targets_known s"
  shows "active_faults (process_faults_round sub now s) =
           filter (\<lambda>f. \<not> expired_float sub now f) (active_faults s) \<and>
         map fst (devices (process_faults_round sub now s)) = map fst (devices s)"
proof -
  from assms obtain s1 where
    r: "revert_expired_float sub now (active_faults s) s [] =
          (None, s1, filter (expired_float sub now) (active_faults s))"
    using revert_expired_float_known [of s "active_faults s" sub now "[]"]
    by (auto simp: targets_known_def)
  from revert_expired_float_result [OF r]
  have a: "active_faults s1 = active_faults s" and k: "map fst (devices s1) = map fst (devices s)"
    by (auto simp: same_faults_def)
  have "remove_faults (filter (expired_float sub now) (active_faults s)) ([] @ active_faults s) =
          (None, [] @ filter (\<lambda>f. \<not> expired_float sub now f) (active_faults s))"
    by (rule remove_faults_filter) simp
  with r a k show ?thesis
    by (simp add: process_faults_round_def)
qed

lemma targets_known_round: "targets_known s \<Longrightarrow> targets_known (process_faults_round sub now s)"
  using round_removes_expired [of s sub now] by (auto simp: targets_known_def list_all_iff)

lemma loop_not_running: "\<not> simulation_running s \<Longrightarrow> process_faults_loop sub ts s = s"
  by (cases ts) simp_all

lemma loop_append:
  "simulation_running s \<Longrightarrow>
   process_faults_loop sub (ts1 @ ts2) s = process_faults_loop sub ts2 (process_faults_loop sub ts1 s)"
  by (induction ts1 arbitrary: s) (simp_all add: round_running)

lemma loop_running: "simulation_running (process_faults_loop sub ts s) = simulation_running s"
  by (induction ts arbitrary: s) (simp_all add: round_running)

lemma targets_known_loop: "targets_known s \<Longrightarrow> targets_known (process_faults_loop sub ts s)"
  by (induction ts arbitrary: s) (simp_all add: targets_known_round)

lemma loop_only_removes:
  "set (active_faults (process_faults_loop sub ts s)) \<subseteq> set (active_faults s)"
proof (induction ts arbitrary: s)
  case Nil
  then show ?case by simp
next
  case (Cons t ts)
  from Cons.IH [of "process_faults_round sub t s"] round_only_removes [of sub t s]
  show ?case by auto
qed

lemma loop_keeps_unexpired:
  "f \<in> set (active_faults s) \<Longrightarrow> \<forall>t \<in> set ts. \<not> expired_float sub t f \<Longrightarrow>
   f \<in> set (active_faults (process_faults_loop sub ts s))"
proof (induction ts arbitrary: s)
  case Nil
  then show ?case by simp
next
  case (Cons t ts)
  from Cons.prems have "f \<in> set (active_faults (process_faults_round sub t s))"
    by (simp add: round_keeps_unexpired)
  from Cons.IH [OF this] Cons.prems show ?case
    by simp
qed

lemma loop_removes_expired:
  assumes "targets_known s" and "simulation_running s" and "t \<in> set ts" and "expired_float sub t f"
  shows "f \<notin> set (active_faults (process_faults_loop sub ts s))"
proof -
  from assms(3) obtain ts1 ts2 where ts: "ts = ts1 @ t # ts2"
    by (meson split_list)
  let ?s1 = "process_faults_loop sub ts1 s"
  have k: "targets_known ?s1"
    using assms(1) by (rule targets_known_loop)
  have r: "simulation_running ?s1"
    using assms(2) by (simp add: loop_running)
  have "f \<notin> set (active_faults (process_faults_round sub t ?s1))"
    using round_removes_expired [OF k, of sub t] assms(4) by simp
  moreover have "process_faults_loop sub ts s = process_faults_loop sub ts2 (process_faults_round sub t ?s1)"
    using assms(2) r by (simp add: ts loop_append)
  ultimately show ?thesis
    using loop_only_removes [of sub ts2 "process_faults_round sub t ?s1"] by auto
qed

lemma expired_float_make_fault:
  "D \<noteq> 0 \<Longrightarrow> t0 \<noteq> 0 \<Longrightarrow>
   expired_float sub t (make_fault ft dev intf params (Some D) t0) \<longleftrightarrow> D \<le> sub t t0"
  by (auto simp: expired_float_def make_fault_def truthy_float_def)

lemma never_expired_float_make_fault:
  "dur = None \<or> dur = Some 0 \<Longrightarrow> \<not> expired_float sub t (make_fault ft dev intf params dur t0)"
  by (auto simp: expired_float_def make_fault_def truthy_float_def)

lemma running_started_simulator: "simulation_running started_simulator"
  by code_simp

lemma known_started_simulator: "''A'' \<in> fst ` set (devices started_simulator)"
proof -
  have "map fst (devices started_simulator) = [''A'', ''B'', ''C'']"
    by code_simp
  then have "set (map fst (devices started_simulator)) = {''A'', ''B'', ''C''}"
    by simp
  then show ?thesis by simp
qed

lemma targets_known_started_simulator: "targets_known started_simulator"
  by code_simp


subsection \<open>Injecting a fault on an unknown device\<close>

text \<open>
  Claim C5 as stated fails: for a target that is no key of the device table the method
  returns \<^verbatim>\<open>None\<close>, the very value it returns for a known target, so what it returns is no
  not-found signal; the application's wrapper reports success for the unknown target.
\<close>

theorem inject_fault_no_signal_counterexample:
  "inject_fault_returns ''link_failure'' ''Z'' None None (Some 30) 100 101 sample_simulator = Inr PyNone \<and>
   inject_fault_returns ''link_failure'' ''A'' None None (Some 30) 100 101 sample_simulator = Inr PyNone \<and>
   fst (app_inject_fault (Some sample_simulator) ''link_failure'' ''Z'' None (Some 30) 100 101) = True"
proof -
  have "set (map fst (devices sample_simulator)) = {''A'', ''B'', ''C''}"
    by (simp add: keys_sample)
  then have z: "''Z'' \<notin> set (map fst (devices sample_simulator))"
    by simp
  obtain s' where a: "inject_fault ''link_failure'' ''A'' None None (Some 30) 100 101 sample_simulator = Inr s'"
    using inject_fault_known [OF known_sample] by blast
  from z a show ?thesis
    by (simp add: inject_fault_returns_def app_inject_fault_def inject_fault_def)
qed

text \<open>
  Claim C5, amended. \<^verbatim>\<open>inject_fault\<close> with a target that is no key of the device table
  raises nothing, logs one \<^verbatim>\<open>ERROR\<close> record that names the target as not found, and
  returns \<^verbatim>\<open>None\<close>, as it does for every known target. The simulator it leaves is the
  one it found but for that record: the active list, the history, the devices, the event
  log and the event queue are what they were.
\<close>

theorem inject_fault_unknown_device:
  "dev \<notin> fst ` set (devices s) \<Longrightarrow>
   inject_fault ft dev intf params dur now now' s =
     Inr (s\<lparr>sim_logger := sim_logger s @ [(ERROR, ''Target device {} not found'', [PyStr dev])]\<rparr>) \<and>
   inject_fault_returns ft dev intf params dur now now' s = Inr PyNone \<and>
   (\<forall>known. known \<in> fst ` set (devices s) \<longrightarrow>
      inject_fault_returns ft known intf params dur now now' s = Inr PyNone)"
proof -
  assume dev: "dev \<notin> fst ` set (devices s)"
  then have effect: "inject_fault ft dev intf params dur now now' s =
     Inr (s\<lparr>sim_logger := sim_logger s @ [(ERROR, ''Target device {} not found'', [PyStr dev])]\<rparr>)"
    by (simp add: inject_fault_def sim_emit_def)
  then have none: "inject_fault_returns ft dev intf params dur now now' s = Inr PyNone"
    by (simp add: inject_fault_returns_def)
  have success: "inject_fault_returns ft known intf params dur now now' s = Inr PyNone"
    if "known \<in> fst ` set (devices s)" for known
  proof -
    from inject_fault_known [OF that]
    obtain s' where "inject_fault ft known intf params dur now now' s = Inr s'"
      by blast
    then show ?thesis
      by (simp add: inject_fault_returns_def)
  qed
  from effect none success show ?thesis
    by simp
qed

theorem inject_fault_unknown_device_witness:
  "''Z'' \<notin> fst ` set (devices sample_simulator) \<and>
   ''A'' \<in> fst ` set (devices sample_simulator) \<and>
   inject_fault ''link_failure'' ''Z'' None None (Some 30) 100 101 sample_simulator =
     Inr (sample_simulator\<lparr>sim_logger := sim_logger sample_simulator @
            [(ERROR, ''Target device {} not found'', [PyStr ''Z''])]\<rparr>) \<and>
   inject_fault_returns ''link_failure'' ''Z'' None None (Some 30) 100 101 sample_simulator = Inr PyNone \<and>
   inject_fault_returns ''link_failure'' ''A'' None None (Some 30) 100 101 sample_simulator = Inr PyNone"
proof -
  have "set (map fst (devices sample_simulator)) = {''A'', ''B'', ''C''}"
    by (simp add: keys_sample)
  then have z: "''Z'' \<notin> fst ` set (devices sample_simulator)"
    by simp
  note t = inject_fault_unknown_device [OF z, of "''link_failure''" None None "Some 30" 100 101]
  from t have e: "inject_fault ''link_failure'' ''Z'' None None (Some 30) 100 101 sample_simulator =
     Inr (sample_simulator\<lparr>sim_logger := sim_logger sample_simulator @
            [(ERROR, ''Target device {} not found'', [PyStr ''Z''])]\<rparr>)"
    and n: "inject_fault_returns ''link_failure'' ''Z'' None None (Some 30) 100 101 sample_simulator = Inr PyNone"
    by blast+
  from t known_sample
  have k: "inject_fault_returns ''link_failure'' ''A'' None None (Some 30) 100 101 sample_simulator = Inr PyNone"
    by blast
  from z known_sample e n k show ?thesis by blast
qed


subsection \<open>Start times\<close>

text \<open>
  Claim C3 as stated fails for the duration 0: the fault is constructed with that
  duration and with no start time.
\<close>

theorem inject_fault_zero_duration_counterexample:
  "duration (last (active_faults (projr
     (inject_fault ''interface_down'' ''A'' (Some ''eth0'') None (Some 0) 100 101 sample_simulator)))) = Some 0 \<and>
   start_time (last (active_faults (projr
     (inject_fault ''interface_down'' ''A'' (Some ''eth0'') None (Some 0) 100 101 sample_simulator)))) = None"
proof -
  from inject_fault_known [OF known_sample, of "''interface_down''" "Some ''eth0''" None "Some 0" 100 101]
  obtain s' where
    "inject_fault ''interface_down'' ''A'' (Some ''eth0'') None (Some 0) 100 101 sample_simulator = Inr s'"
    "active_faults s' = active_faults sample_simulator @
       [make_fault ''interface_down'' ''A'' (Some ''eth0'') None (Some 0) 100]"
    by blast
  then show ?thesis
    by (simp add: make_fault_def truthy_float_def)
qed

text \<open>
  Claim C3, amended. \<^verbatim>\<open>inject_fault\<close> on a device of the table appends the fault it
  constructs, with the duration it was given, to the active list. A fault whose duration
  is absent or 0 has no start time, and no run of rounds of the expiry loop, from any
  simulator that holds it, takes it off the active list. A fault with a duration other
  than 0 has the clock reading of the injection as its start time.
\<close>

theorem inject_fault_start_time:
  "dev \<in> fst ` set (devices s) \<Longrightarrow>
   (\<exists>s'. inject_fault ft dev intf params dur now now' s = Inr s' \<and>
         active_faults s' = active_faults s @ [make_fault ft dev intf params dur now]) \<and>
   duration (make_fault ft dev intf params dur now) = dur \<and>
   (dur = None \<or> dur = Some 0 \<longrightarrow>
      start_time (make_fault ft dev intf params dur now) = None \<and>
      (\<forall>ts s''. make_fault ft dev intf params dur now \<in> set (active_faults s'') \<longrightarrow>
         make_fault ft dev intf params dur now \<in> set (active_faults (process_faults ts s'')))) \<and>
   (\<forall>d. dur = Some d \<and> d \<noteq> 0 \<longrightarrow> start_time (make_fault ft dev intf params dur now) = Some now)"
proof -
  assume dev: "dev \<in> fst ` set (devices s)"
  let ?f = "make_fault ft dev intf params dur now"
  have injected: "\<exists>s'. inject_fault ft dev intf params dur now now' s = Inr s' \<and>
         active_faults s' = active_faults s @ [?f]"
    using inject_fault_known [OF dev] by blast
  have dur: "duration ?f = dur"
    by (simp add: make_fault_def)
  have none: "start_time ?f = None" if "dur = None \<or> dur = Some 0"
    using that by (auto simp: make_fault_def truthy_float_def)
  have stays: "?f \<in> set (active_faults (process_faults ts s''))"
    if "dur = None \<or> dur = Some 0" and "?f \<in> set (active_faults s'')" for ts s''
    using that by (intro process_faults_keeps_unexpired) (simp_all add: never_expired_make_fault)
  have some: "start_time ?f = Some now" if "dur = Some d \<and> d \<noteq> 0" for d
    using that by (simp add: make_fault_def truthy_float_def)
  show ?thesis
  proof (intro conjI impI allI)
    show "\<exists>s'. inject_fault ft dev intf params dur now now' s = Inr s' \<and>
         active_faults s' = active_faults s @ [?f]"
      by (rule injected)
    show "duration ?f = dur"
      by (rule dur)
    show "start_time ?f = None" if "dur = None \<or> dur = Some 0"
      using that by (rule none)
    show "?f \<in> set (active_faults (process_faults ts s''))"
      if "dur = None \<or> dur = Some 0" and "?f \<in> set (active_faults s'')" for ts s''
      using that by (rule stays)
    show "start_time ?f = Some now" if "dur = Some d \<and> d \<noteq> 0" for d
      using that by (rule some)
  qed
qed

theorem inject_fault_start_time_witness:
  "''A'' \<in> fst ` set (devices sample_simulator) \<and>
   start_time (make_fault ''high_cpu'' ''A'' None None None 100) = None \<and>
   make_fault ''high_cpu'' ''A'' None None None 100 \<in> set (active_faults (process_faults [101, 5000]
     (projr (inject_fault ''high_cpu'' ''A'' None None None 100 100 sample_simulator)))) \<and>
   start_time (make_fault ''high_cpu'' ''A'' None None (Some 30) 100) = Some 100"
proof -
  let ?f = "make_fault ''high_cpu'' ''A'' None None None 100"
  note permanent = inject_fault_start_time [OF known_sample, of "''high_cpu''" None None None 100 100]
  from permanent obtain s' where
    s': "inject_fault ''high_cpu'' ''A'' None None None 100 100 sample_simulator = Inr s'"
      "active_faults s' = active_faults sample_simulator @ [?f]"
    by blast
  from permanent have n: "start_time ?f = None"
    and stays: "\<And>ts s''. ?f \<in> set (active_faults s'') \<Longrightarrow> ?f \<in> set (active_faults (process_faults ts s''))"
    by blast+
  from s' have "?f \<in> set (active_faults s')"
    by simp
  then have "?f \<in> set (active_faults (process_faults [101, 5000] s'))"
    by (rule stays)
  with s' have a: "?f \<in> set (active_faults (process_faults [101, 5000]
     (projr (inject_fault ''high_cpu'' ''A'' None None None 100 100 sample_simulator))))"
    by simp
  from inject_fault_start_time [OF known_sample, of "''high_cpu''" None None "Some 30" 100 100]
  have t: "start_time (make_fault ''high_cpu'' ''A'' None None (Some 30) 100) = Some 100"
    by simp
  from known_sample n a t show ?thesis by blast
qed

subsection \<open>Expiry\<close>

text \<open>
  Claim C4 as stated fails for the duration 0: injected at clock reading 1000 into the
  running simulator, the fault is still active after rounds of the loop at 1000, 1001
  and 1200.
\<close>

theorem fault_expiry_zero_duration_counterexample:
  "simulation_running started_simulator \<and>
   make_fault ''high_cpu'' ''A'' None None (Some 0) 1000 \<in> set (active_faults
     (process_faults_loop (\<lambda>a b. a - b) [1000, 1001, 1200]
        (projr (inject_fault ''high_cpu'' ''A'' None None (Some 0) 1000 1000 started_simulator))))"
proof -
  let ?f = "make_fault ''high_cpu'' ''A'' None None (Some 0) 1000"
  from inject_fault_known [OF known_started_simulator, of "''high_cpu''" None None "Some 0" 1000 1000]
  obtain s' where
    s': "inject_fault ''high_cpu'' ''A'' None None (Some 0) 1000 1000 started_simulator = Inr s'"
      "active_faults s' = active_faults started_simulator @ [?f]"
    by blast
  then have "?f \<in> set (active_faults s')"
    by simp
  then have "?f \<in> set (active_faults (process_faults_loop (\<lambda>a b. a - b) [1000, 1001, 1200] s'))"
    by (rule loop_keeps_unexpired) (simp add: never_expired_float_make_fault)
  with s' running_started_simulator show ?thesis by simp
qed

text \<open>
  Claim C4, amended. In a running simulator whose active faults all target devices of
  the table, a fault injected with the duration \<open>D\<close> at a clock reading \<open>t0\<close> other than 0,
  on a device of the table, is on the active list at once. If \<open>D\<close> is 0 it stays there
  through any rounds of the loop. If \<open>D\<close> is not 0 it is still there after any rounds at
  each of which the float difference of the round's clock reading and \<open>t0\<close> is below \<open>D\<close>,
  and it is gone after any rounds at one of which that difference is at least \<open>D\<close>. So it
  is gone after any rounds one of which comes at or after \<open>t0 + D\<close>, for every float
  subtraction that rounds the exact difference monotonically and leaves \<open>D\<close> as it is. A
  round shortly before \<open>t0 + D\<close> whose float difference rounds up to \<open>D\<close> removes it already.
\<close>

theorem fault_expiry:
  "dev \<in> fst ` set (devices s) \<Longrightarrow> targets_known s \<Longrightarrow> simulation_running s \<Longrightarrow> t0 \<noteq> 0 \<Longrightarrow>
   \<exists>s'. inject_fault ft dev intf params (Some D) t0 t0' s = Inr s' \<and>
        make_fault ft dev intf params (Some D) t0 \<in> set (active_faults s') \<and>
        (D = 0 \<longrightarrow>
           (\<forall>sub ts. make_fault ft dev intf params (Some D) t0
                       \<in> set (active_faults (process_faults_loop sub ts s')))) \<and>
        (D \<noteq> 0 \<longrightarrow>
           (\<forall>sub ts. (\<forall>t \<in> set ts. sub t t0 < D) \<longrightarrow>
              make_fault ft dev intf params (Some D) t0
                \<in> set (active_faults (process_faults_loop sub ts s'))) \<and>
           (\<forall>sub ts. (\<exists>t \<in> set ts. D \<le> sub t t0) \<longrightarrow>
              make_fault ft dev intf params (Some D) t0
                \<notin> set (active_faults (process_faults_loop sub ts s'))) \<and>
           (\<forall>rnd ts. mono rnd \<and> rnd D = D \<and> (\<exists>t \<in> set ts. t0 + D \<le> t) \<longrightarrow>
              make_fault ft dev intf params (Some D) t0
                \<notin> set (active_faults (process_faults_loop (\<lambda>a b. rnd (a - b)) ts s'))))"
proof -
  assume dev: "dev \<in> fst ` set (devices s)" and known: "targets_known s"
    and running: "simulation_running s" and t0: "t0 \<noteq> 0"
  let ?f = "make_fault ft dev intf params (Some D) t0"
  from inject_fault_known [OF dev, of ft intf params "Some D" t0 t0']
  obtain s' where s': "inject_fault ft dev intf params (Some D) t0 t0' s = Inr s'"
      "active_faults s' = active_faults s @ [?f]" "map fst (devices s') = map fst (devices s)"
    by blast
  have member: "?f \<in> set (active_faults s')"
    using s' by simp
  have "target_device ?f \<in> set (map fst (devices s))"
    using dev by (simp add: make_fault_def)
  with known s' have known': "targets_known s'"
    by (simp add: targets_known_def)
  have running': "simulation_running s'"
    using running_inject_fault [OF s'(1)] running by simp
  have permanent: "?f \<in> set (active_faults (process_faults_loop sub ts s'))" if "D = 0" for sub ts
    using member
  proof (rule loop_keeps_unexpired)
    show "\<forall>t \<in> set ts. \<not> expired_float sub t ?f"
      using that by (simp add: never_expired_float_make_fault)
  qed
  have before: "?f \<in> set (active_faults (process_faults_loop sub ts s'))"
    if "D \<noteq> 0" and "\<forall>t \<in> set ts. sub t t0 < D" for sub ts
    using member
  proof (rule loop_keeps_unexpired)
    show "\<forall>t \<in> set ts. \<not> expired_float sub t ?f"
      using that by (auto simp: expired_float_make_fault [OF that(1) t0])
  qed
  have after: "?f \<notin> set (active_faults (process_faults_loop sub ts s'))"
    if D: "D \<noteq> 0" and late: "\<exists>t \<in> set ts. D \<le> sub t t0" for sub ts
  proof -
    from late obtain t where "t \<in> set ts" "D \<le> sub t t0"
      by blast
    then show ?thesis
      using loop_removes_expired [OF known' running', of t ts sub ?f]
      by (simp add: expired_float_make_fault [OF D t0])
  qed
  have after_rounded: "?f \<notin> set (active_faults (process_faults_loop (\<lambda>a b. rnd (a - b)) ts s'))"
    if D: "D \<noteq> 0" and rnd: "mono rnd \<and> rnd D = D \<and> (\<exists>t \<in> set ts. t0 + D \<le> t)" for rnd ts
  proof -
    from rnd obtain t where t: "t \<in> set ts" "t0 + D \<le> t"
      by blast
    from t(2) have "D \<le> t - t0"
      by simp
    moreover from rnd have "mono rnd"
      by simp
    ultimately have "rnd D \<le> rnd (t - t0)"
      by (rule monoD [rotated])
    with rnd have "D \<le> rnd (t - t0)"
      by simp
    with t(1) have "\<exists>t \<in> set ts. D \<le> (\<lambda>a b. rnd (a - b)) t t0"
      by blast
    with D show ?thesis
      by (rule after)
  qed
  show ?thesis
  proof (intro exI [of _ s'] conjI impI allI)
    show "inject_fault ft dev intf params (Some D) t0 t0' s = Inr s'"
      by (rule s'(1))
    show "?f \<in> set (active_faults s')"
      by (rule member)
    show "?f \<in> set (active_faults (process_faults_loop sub ts s'))" if "D = 0" for sub ts
      using that by (rule permanent)
    show "?f \<in> set (active_faults (process_faults_loop sub ts s'))"
      if "D \<noteq> 0" and "\<forall>t \<in> set ts. sub t t0 < D" for sub ts
      using that by (rule before)
    show "?f \<notin> set (active_faults (process_faults_loop sub ts s'))"
      if "D \<noteq> 0" and "\<exists>t \<in> set ts. D \<le> sub t t0" for sub ts
      using that by (rule after)
    show "?f \<notin> set (active_faults (process_faults_loop (\<lambda>a b. rnd (a - b)) ts s'))"
      if "D \<noteq> 0" and "mono rnd \<and> rnd D = D \<and> (\<exists>t \<in> set ts. t0 + D \<le> t)" for rnd ts
      using that by (rule after_rounded)
  qed
qed

theorem fault_expiry_witness:
  "''A'' \<in> fst ` set (devices started_simulator) \<and> targets_known started_simulator \<and>
   simulation_running started_simulator \<and>
   make_fault ''link_failure'' ''A'' None None (Some 2) 1000 \<in> set (active_faults
     (process_faults_loop (\<lambda>a b. a - b) [1000.5, 1001.5]
        (projr (inject_fault ''link_failure'' ''A'' None None (Some 2) 1000 1000 started_simulator)))) \<and>
   make_fault ''link_failure'' ''A'' None None (Some 2) 1000 \<notin> set (active_faults
     (process_faults_loop (\<lambda>a b. a - b) [1000.5, 1001.5, 1002.5]
        (projr (inject_fault ''link_failure'' ''A'' None None (Some 2) 1000 1000 started_simulator))))"
proof -
  let ?f = "make_fault ''link_failure'' ''A'' None None (Some 2) 1000"
  let ?sub = "\<lambda>a b :: real. a - b"
  have nz: "(1000::real) \<noteq> 0"
    by simp
  from fault_expiry [OF known_started_simulator targets_known_started_simulator
      running_started_simulator nz, of "''link_failure''" None None 2 1000]
  obtain s' where s': "inject_fault ''link_failure'' ''A'' None None (Some 2) 1000 1000 started_simulator = Inr s'"
    and timed: "(2::real) \<noteq> 0 \<longrightarrow>
           (\<forall>sub ts. (\<forall>t \<in> set ts. sub t 1000 < 2) \<longrightarrow>
              ?f \<in> set (active_faults (process_faults_loop sub ts s'))) \<and>
           (\<forall>sub ts. (\<exists>t \<in> set ts. 2 \<le> sub t 1000) \<longrightarrow>
              ?f \<notin> set (active_faults (process_faults_loop sub ts s'))) \<and>
           (\<forall>rnd ts. mono rnd \<and> rnd 2 = 2 \<and> (\<exists>t \<in> set ts. 1000 + 2 \<le> t) \<longrightarrow>
              ?f \<notin> set (active_faults (process_faults_loop (\<lambda>a b. rnd (a - b)) ts s')))"
    by (elim exE conjE) (rule that)
  from timed have before: "\<forall>t \<in> set ts. sub t 1000 < 2 \<Longrightarrow>
                   ?f \<in> set (active_faults (process_faults_loop sub ts s'))" for sub ts
    by simp
  from timed have after: "\<exists>t \<in> set ts. 2 \<le> sub t 1000 \<Longrightarrow>
                   ?f \<notin> set (active_faults (process_faults_loop sub ts s'))" for sub ts
    by simp
  have a: "?f \<in> set (active_faults (process_faults_loop ?sub [1000.5, 1001.5] s'))"
    by (rule before) simp
  have b: "?f \<notin> set (active_faults (process_faults_loop ?sub [1000.5, 1001.5, 1002.5] s'))"
    by (rule after) (rule bexI [of _ "1002.5"], simp_all)
  from known_started_simulator targets_known_started_simulator running_started_simulator a b s'
  show ?thesis by simp
qed

subsection \<open>The status after the start\<close>

lemma update_fresh: "k \<notin> fst ` set al \<Longrightarrow> AList.update k v al = al @ [(k, v)]"
  by (induction al) auto

lemma foldl_update_fresh:
  "distinct (map fst xs) \<Longrightarrow> fst ` set xs \<inter> fst ` set acc = {} \<Longrightarrow>
   foldl (\<lambda>ds p. AList.update (fst p) (g p) ds) acc xs = acc @ map (\<lambda>p. (fst p, g p)) xs"
proof (induction xs arbitrary: acc)
  case Nil
  then show ?case by simp
next
  case (Cons x xs)
  from Cons.prems have fresh: "fst x \<notin> fst ` set acc"
    by auto
  from Cons.prems have "distinct (map fst xs)" and "fst ` set xs \<inter> fst ` set (acc @ [(fst x, g x)]) = {}"
    by auto
  from Cons.IH [OF this] fresh show ?case
    by (simp add: update_fresh)
qed

lemma get_device_neighbors_init: "get_device_neighbors TopologyGenerator_init h = []"
  by (simp add: get_device_neighbors_def TopologyGenerator_init_def)

lemma initialize_device_init:
  "initialize_device TopologyGenerator_init ds hc = AList.update (fst hc) (fresh_device hc) ds"
  by (simp add: initialize_device_def get_device_neighbors_init fresh_device_def)

lemma devices_init:
  "distinct (map fst (topo_devices t)) \<Longrightarrow>
   devices (NetworkSimulator_init t) = map (\<lambda>hc. (fst hc, fresh_device hc)) (topo_devices t)"
proof -
  assume d: "distinct (map fst (topo_devices t))"
  have "devices (NetworkSimulator_init t) =
          foldl (\<lambda>ds hc. AList.update (fst hc) (fresh_device hc) ds) [] (topo_devices t)"
    by (simp add: NetworkSimulator_init_def initialize_devices_def Let_def sim_emit_def
        initialize_device_init [abs_def])
  also have "\<dots> = [] @ map (\<lambda>hc. (fst hc, fresh_device hc)) (topo_devices t)"
    using d by (intro foldl_update_fresh) simp_all
  finally show ?thesis by simp
qed

lemma start_devices_fresh:
  "list_all (\<lambda>p. \<not> started (snd p)) ds \<Longrightarrow>
   start_devices ds = (None, map (\<lambda>p. (fst p, (snd p)\<lparr>started := True, alive := True\<rparr>)) ds)"
  by (induction ds) (simp_all add: device_start_def)

lemma running_init: "\<not> simulation_running (NetworkSimulator_init t)"
  by (simp add: NetworkSimulator_init_def initialize_devices_def Let_def sim_emit_def)

lemma start_simulation_init:
  assumes "distinct (map fst (topo_devices t))"
  shows "fst (start_simulation now (NetworkSimulator_init t)) = None"
    and "devices (snd (start_simulation now (NetworkSimulator_init t))) =
           map (\<lambda>hc. (fst hc, (fresh_device hc)\<lparr>started := True, alive := True\<rparr>)) (topo_devices t)"
proof -
  let ?ds = "map (\<lambda>hc. (fst hc, fresh_device hc)) (topo_devices t)"
  have "list_all (\<lambda>p. \<not> started (snd p)) ?ds"
    by (simp add: list_all_iff fresh_device_def NetworkDevice_init_def)
  then have "start_devices ?ds = (None, map (\<lambda>p. (fst p, (snd p)\<lparr>started := True, alive := True\<rparr>)) ?ds)"
    by (rule start_devices_fresh)
  then have s: "start_devices (devices (NetworkSimulator_init t)) =
      (None, map (\<lambda>hc. (fst hc, (fresh_device hc)\<lparr>started := True, alive := True\<rparr>)) (topo_devices t))"
    by (simp add: devices_init [OF assms] comp_def)
  show "fst (start_simulation now (NetworkSimulator_init t)) = None"
    using s by (simp add: start_simulation_def running_init Let_def sim_emit_def)
  show "devices (snd (start_simulation now (NetworkSimulator_init t))) =
           map (\<lambda>hc. (fst hc, (fresh_device hc)\<lparr>started := True, alive := True\<rparr>)) (topo_devices t)"
    using s by (simp add: start_simulation_def running_init Let_def sim_emit_def)
qed

lemma status_devices_distinct:
  assumes "distinct (map fst (devices s))"
  shows "status_devices (get_network_status s) =
           map (\<lambda>p. (fst p, \<lparr>online = alive (snd p), summary_neighbors = neighbors (snd p),
                               summary_interfaces = length (interfaces (snd p))\<rparr>)) (devices s)"
proof -
  let ?g = "\<lambda>p. \<lparr>online = alive (snd p), summary_neighbors = neighbors (snd p),
                  summary_interfaces = length (interfaces (snd p))\<rparr>"
  have "status_devices (get_network_status s) = foldl (\<lambda>st p. AList.update (fst p) (?g p) st) [] (devices s)"
    by (simp add: get_network_status_def case_prod_unfold)
  also have "\<dots> = [] @ map (\<lambda>p. (fst p, ?g p)) (devices s)"
    using assms by (intro foldl_update_fresh) simp_all
  finally show ?thesis by simp
qed

text \<open>
  The simulator's own generator never holds a topology, so it reports no neighbour: for
  every topology (the keys of its device table distinct, as in every dictionary) the
  status right after the start lists every configured device, alive, with its interface
  count and with an empty neighbour list.
\<close>

lemma status_after_start:
  assumes "distinct (map fst (topo_devices t))"
  shows "fst (start_simulation now (NetworkSimulator_init t)) = None \<and>
         status_devices (get_network_status (snd (start_simulation now (NetworkSimulator_init t)))) =
           map (\<lambda>hc. (fst hc, \<lparr>online = True, summary_neighbors = [],
                                summary_interfaces =
                                  length (initialize_interfaces (convert_config_for_device (snd hc)))\<rparr>))
             (topo_devices t)"
proof -
  let ?s = "snd (start_simulation now (NetworkSimulator_init t))"
  note d = start_simulation_init [OF assms, of now]
  have "map fst (devices ?s) = map fst (topo_devices t)"
    by (simp add: d(2) comp_def)
  with assms have "distinct (map fst (devices ?s))"
    by simp
  from status_devices_distinct [OF this] d show ?thesis
    by (simp add: comp_def fresh_device_def NetworkDevice_init_def)
qed

text \<open>
  Claim C1 on the sample topology, in which every device has two neighbours: the start
  raises nothing and the status lists the three devices, but each with no neighbour. A
  generator that holds the topology reports the two neighbours of each.
\<close>

theorem status_after_start_sample:
  "fst (start_simulation 1000 sample_simulator) = None \<and>
   map (\<lambda>(h, d). (h, summary_neighbors d))
     (status_devices (get_network_status (snd (start_simulation 1000 sample_simulator)))) =
     [(''A'', []), (''B'', []), (''C'', [])] \<and>
   map (\<lambda>h. (h, get_device_neighbors (store_topology sample_topology TopologyGenerator_init) h))
     [''A'', ''B'', ''C''] =
     [(''A'', [''B'', ''C'']), (''B'', [''A'', ''C'']), (''C'', [''A'', ''B''])]"
  by code_simp

subsection \<open>Reverting a link failure\<close>

text \<open>
  Claim C2 on three devices that are neighbours of one another. While the fault on
  \<^verbatim>\<open>A\<close> is active (round at 1000.5), \<^verbatim>\<open>A\<close> has no neighbour and neither \<^verbatim>\<open>B\<close> nor \<^verbatim>\<open>C\<close>
  lists \<^verbatim>\<open>A\<close>. The round at 1002.5 takes the fault off the active list, but the neighbour
  lists stay as the fault left them: the revert asks the simulator's own generator, which
  holds no topology.
\<close>

theorem link_failure_not_restored:
  "neighbor_table linked_simulator =
     [(''A'', [''B'', ''C'']), (''B'', [''A'', ''C'']), (''C'', [''A'', ''B''])] \<and>
   neighbor_table (process_faults [1000.5] link_failed_simulator) =
     [(''A'', []), (''B'', [''C'']), (''C'', [''B''])] \<and>
   active_faults (process_faults [1000.5, 1001.5, 1002.5] link_failed_simulator) = [] \<and>
   neighbor_table (process_faults [1000.5, 1001.5, 1002.5] link_failed_simulator) =
     [(''A'', []), (''B'', [''C'']), (''C'', [''B''])]"
  by code_simp

text \<open>
  With a generator that holds the topology the same rounds restore the links, in both
  directions.
\<close>

lemma link_failure_restored_with_stored_topology:
  "neighbor_table (process_faults [1000.5, 1001.5, 1002.5]
     (link_failed_simulator\<lparr>topology_generator := store_topology sample_topology TopologyGenerator_init\<rparr>)) =
     [(''A'', [''B'', ''C'']), (''B'', [''C'', ''A'']), (''C'', [''B'', ''A''])]"
  by code_simp

end
